theory Spec2Isabelle
  imports Complex_Main
begin

section \<open>Scanner (package lexer)\<close>

text \<open>
  Go strings are byte sequences and the scanner reads one byte at a time
  (\<^verbatim>\<open>rune(l.input[l.position])\<close>), so a source text is a \<^typ>\<open>string\<close> and a rune
  obtained this way is a \<^typ>\<open>char\<close> (a code point below 256).
\<close>

datatype TokenType =
    TokenEOF | TokenError
  | TokenNumber | TokenText | TokenBoolean
  | TokenIdentifier
  | TokenNumberKeyword | TokenTextKeyword | TokenBooleanKeyword
  | TokenFunction | TokenIf | TokenThen | TokenElse | TokenEnd
  | TokenLoop | TokenFrom | TokenTo | TokenPrint
  | TokenPlus | TokenMinus | TokenMultiply | TokenDivide | TokenAssign
  | TokenEqual | TokenNotEqual | TokenLessThan | TokenLessEqual
  | TokenGreaterThan | TokenGreaterEqual | TokenAnd | TokenOr | TokenNot
  | TokenLeftParen | TokenRightParen | TokenLeftBrace | TokenRightBrace
  | TokenComma | TokenSemicolon | TokenColon

text \<open>The \<^verbatim>\<open>interface{}\<close> payload of a token or of a literal node: nil, a string or a bool.\<close>

datatype payload = PNil | PString string | PBool bool

record Token =
  Type :: TokenType
  Value :: string
  Line :: int
  Column :: int
  Literal :: payload

record Lexer =
  input :: string
  position :: nat
  line :: int
  column :: int
  tokens :: "Token list"

definition NewLexer :: "string \<Rightarrow> Lexer" where
  "NewLexer src = \<lparr>input = src, position = 0, line = 1, column = 1, tokens = []\<rparr>"

text \<open>
  \<^verbatim>\<open>unicode.IsDigit\<close>, \<^verbatim>\<open>unicode.IsLetter\<close> and \<^verbatim>\<open>unicode.IsSpace\<close> on the Latin-1
  range, which is all a byte converted to a rune can reach.
\<close>

definition isDigit :: "char \<Rightarrow> bool" where
  "isDigit c = (let n = (of_char c :: nat) in 48 \<le> n \<and> n \<le> 57)"

definition isLetter :: "char \<Rightarrow> bool" where
  "isLetter c = (let n = (of_char c :: nat) in
     (65 \<le> n \<and> n \<le> 90) \<or> (97 \<le> n \<and> n \<le> 122) \<or> n = 170 \<or> n = 181 \<or> n = 186 \<or>
     (192 \<le> n \<and> n \<le> 214) \<or> (216 \<le> n \<and> n \<le> 246) \<or> (248 \<le> n \<and> n \<le> 255))"

definition isSpace :: "char \<Rightarrow> bool" where
  "isSpace c = (let n = (of_char c :: nat) in
     (9 \<le> n \<and> n \<le> 13) \<or> n = 32 \<or> n = 133 \<or> n = 160)"

definition currentChar :: "Lexer \<Rightarrow> char" where
  "currentChar l =
     (if position l \<ge> length (input l) then CHR 0x00 else input l ! position l)"

definition advance :: "Lexer \<Rightarrow> Lexer" where
  "advance l = l\<lparr>position := position l + 1, column := column l + 1\<rparr>"

function skipWhitespace :: "Lexer \<Rightarrow> Lexer" where
  "skipWhitespace l =
     (if position l < length (input l) \<and> isSpace (currentChar l)
      then skipWhitespace (advance
             (if currentChar l = CHR 0x0A
              then l\<lparr>line := line l + 1, column := 1\<rparr>
              else l\<lparr>column := column l + 1\<rparr>))
      else l)"
  by pat_completeness auto
termination
  by (relation "measure (\<lambda>l. length (input l) - position l)") (auto simp: advance_def)

text \<open>The slice \<^verbatim>\<open>l.input[start:l.position]\<close>.\<close>

definition slice :: "string \<Rightarrow> nat \<Rightarrow> nat \<Rightarrow> string" where
  "slice s start stop = take (stop - start) (drop start s)"

function readNumber_loop :: "Lexer \<Rightarrow> Lexer" where
  "readNumber_loop l =
     (if position l < length (input l) \<and> (isDigit (currentChar l) \<or> currentChar l = CHR ''.'')
      then readNumber_loop (advance l) else l)"
  by pat_completeness auto
termination
  by (relation "measure (\<lambda>l. length (input l) - position l)") (auto simp: advance_def)

definition readNumber :: "Lexer \<Rightarrow> Token \<times> Lexer" where
  "readNumber l0 =
     (let start = position l0; startColumn = column l0;
          l = readNumber_loop l0;
          v = slice (input l) start (position l)
      in (\<lparr>Type = TokenNumber, Value = v, Line = line l, Column = startColumn,
           Literal = PString v\<rparr>, l))"

function readText_loop :: "Lexer \<Rightarrow> Lexer" where
  "readText_loop l =
     (if position l < length (input l) \<and> currentChar l \<noteq> CHR 0x22
      then readText_loop (advance
             (if currentChar l = CHR 0x0A then l\<lparr>line := line l + 1, column := 1\<rparr> else l))
      else l)"
  by pat_completeness auto
termination
  by (relation "measure (\<lambda>l. length (input l) - position l)") (auto simp: advance_def)

definition readText :: "Lexer \<Rightarrow> Token \<times> Lexer" where
  "readText l0 =
     (let startColumn = column l0;
          l1 = advance l0;
          start = position l1;
          l = readText_loop l1
      in if position l \<ge> length (input l)
         then (\<lparr>Type = TokenError, Value = ''unterminated string'', Line = line l,
                Column = startColumn, Literal = PNil\<rparr>, l)
         else (let v = slice (input l) start (position l); l' = advance l
               in (\<lparr>Type = TokenText, Value = v, Line = line l', Column = startColumn,
                    Literal = PString v\<rparr>, l')))"

definition getKeywordType :: "string \<Rightarrow> TokenType" where
  "getKeywordType v =
     (if v = ''number'' then TokenNumberKeyword
      else if v = ''text'' then TokenTextKeyword
      else if v = ''boolean'' then TokenBooleanKeyword
      else if v = ''function'' then TokenFunction
      else if v = ''if'' then TokenIf
      else if v = ''then'' then TokenThen
      else if v = ''else'' then TokenElse
      else if v = ''end'' then TokenEnd
      else if v = ''loop'' then TokenLoop
      else if v = ''from'' then TokenFrom
      else if v = ''to'' then TokenTo
      else if v = ''print'' then TokenPrint
      else TokenIdentifier)"

function readIdentifier_loop :: "Lexer \<Rightarrow> Lexer" where
  "readIdentifier_loop l =
     (if position l < length (input l) \<and>
         (isLetter (currentChar l) \<or> isDigit (currentChar l) \<or> currentChar l = CHR ''_'')
      then readIdentifier_loop (advance l) else l)"
  by pat_completeness auto
termination
  by (relation "measure (\<lambda>l. length (input l) - position l)") (auto simp: advance_def)

definition readIdentifierOrKeyword :: "Lexer \<Rightarrow> Token \<times> Lexer" where
  "readIdentifierOrKeyword l0 =
     (let start = position l0; startColumn = column l0;
          l = readIdentifier_loop l0;
          v = slice (input l) start (position l);
          tokenType = getKeywordType v
      in if tokenType = TokenBoolean \<and> (v = ''true'' \<or> v = ''false'')
         then (\<lparr>Type = TokenBoolean, Value = v, Line = line l, Column = startColumn,
                Literal = PBool (v = ''true'')\<rparr>, l)
         else (\<lparr>Type = tokenType, Value = v, Line = line l, Column = startColumn,
                Literal = PString v\<rparr>, l))"

text \<open>
  \<^verbatim>\<open>fmt.Sprintf("%c", r)\<close> writes the UTF-8 encoding of the code point: one byte below
  128, two bytes for the rest of Latin-1.
\<close>

definition fmt_c :: "char \<Rightarrow> string" where
  "fmt_c c = (let n = (of_char c :: nat) in
     if n < 128 then [c] else [char_of (192 + n div 64), char_of (128 + n mod 64)])"

text \<open>A token of one character \<open>v\<close>, made after the cursor has moved past it.\<close>

definition single :: "TokenType \<Rightarrow> string \<Rightarrow> Lexer \<Rightarrow> Token \<times> Lexer" where
  "single ty v l0 =
     (let l = advance l0
      in (\<lparr>Type = ty, Value = v, Line = line l, Column = column l - 1, Literal = PNil\<rparr>, l))"

text \<open>A token of one character, or of two when the next character is \<open>=\<close>.\<close>

definition single_or_eq ::
    "TokenType \<Rightarrow> string \<Rightarrow> TokenType \<Rightarrow> string \<Rightarrow> Lexer \<Rightarrow> Token \<times> Lexer" where
  "single_or_eq ty2 v2 ty1 v1 l0 =
     (let l = advance l0
      in if currentChar l = CHR ''=''
         then (let l' = advance l
               in (\<lparr>Type = ty2, Value = v2, Line = line l', Column = column l' - 2,
                    Literal = PNil\<rparr>, l'))
         else (\<lparr>Type = ty1, Value = v1, Line = line l, Column = column l - 1,
                Literal = PNil\<rparr>, l))"

definition nextToken :: "Lexer \<Rightarrow> Token \<times> Lexer" where
  "nextToken l =
     (let c = currentChar l in
      if isDigit c then readNumber l
      else if c = CHR 0x22 then readText l
      else if isLetter c then readIdentifierOrKeyword l
      else if c = CHR ''+'' then single TokenPlus ''+'' l
      else if c = CHR ''-'' then single TokenMinus ''-'' l
      else if c = CHR ''*'' then single TokenMultiply ''*'' l
      else if c = CHR ''/'' then single TokenDivide ''/'' l
      else if c = CHR ''='' then single_or_eq TokenEqual ''=='' TokenAssign ''='' l
      else if c = CHR ''<'' then single_or_eq TokenLessEqual ''<='' TokenLessThan ''<'' l
      else if c = CHR ''>'' then single_or_eq TokenGreaterEqual ''>='' TokenGreaterThan ''>'' l
      else if c = CHR ''!'' then single_or_eq TokenNotEqual ''!='' TokenNot ''!'' l
      else if c = CHR ''('' then single TokenLeftParen ''('' l
      else if c = CHR '')'' then single TokenRightParen '')'' l
      else if c = CHR ''{'' then single TokenLeftBrace ''{'' l
      else if c = CHR ''}'' then single TokenRightBrace ''}'' l
      else if c = CHR '','' then single TokenComma '','' l
      else if c = CHR '';'' then single TokenSemicolon '';'' l
      else if c = CHR '':'' then single TokenColon '':'' l
      else (\<lparr>Type = TokenError, Value = ''unexpected character: '' @ fmt_c c,
             Line = line l, Column = column l, Literal = PNil\<rparr>, l))"

text \<open>
  The error of \<^verbatim>\<open>Tokenize\<close>,
  \<^verbatim>\<open>fmt.Errorf("lexical error at line %d, column %d: %s", ...)\<close>, kept as its three
  arguments.
\<close>

datatype lex_error = LexicalError int int string

subsection \<open>The scanner's loops move forward\<close>

declare skipWhitespace.simps [simp del] readNumber_loop.simps [simp del]
  readText_loop.simps [simp del] readIdentifier_loop.simps [simp del]

lemma skipWhitespace_mono:
  "input (skipWhitespace l) = input l \<and> position l \<le> position (skipWhitespace l)"
proof (induction l rule: skipWhitespace.induct)
  case (1 l)
  show ?case
  proof (cases "position l < length (input l) \<and> isSpace (currentChar l)")
    case True
    with 1 show ?thesis
      by (subst (1 2) skipWhitespace.simps) (auto simp: advance_def)
  next
    case False
    then show ?thesis by (subst (1 2) skipWhitespace.simps) auto
  qed
qed

lemma readNumber_loop_mono:
  "input (readNumber_loop l) = input l \<and> position l \<le> position (readNumber_loop l)"
proof (induction l rule: readNumber_loop.induct)
  case (1 l)
  show ?case
  proof (cases "position l < length (input l) \<and> (isDigit (currentChar l) \<or> currentChar l = CHR ''.'')")
    case True
    with 1 show ?thesis
      by (subst (1 2) readNumber_loop.simps) (auto simp: advance_def)
  next
    case False
    then show ?thesis by (subst (1 2) readNumber_loop.simps) auto
  qed
qed

lemma readText_loop_mono:
  "input (readText_loop l) = input l \<and> position l \<le> position (readText_loop l)"
proof (induction l rule: readText_loop.induct)
  case (1 l)
  show ?case
  proof (cases "position l < length (input l) \<and> currentChar l \<noteq> CHR 0x22")
    case True
    with 1 show ?thesis
      by (subst (1 2) readText_loop.simps) (auto simp: advance_def)
  next
    case False
    then show ?thesis by (subst (1 2) readText_loop.simps) auto
  qed
qed

lemma readIdentifier_loop_mono:
  "input (readIdentifier_loop l) = input l \<and> position l \<le> position (readIdentifier_loop l)"
proof (induction l rule: readIdentifier_loop.induct)
  case (1 l)
  show ?case
  proof (cases "position l < length (input l) \<and>
         (isLetter (currentChar l) \<or> isDigit (currentChar l) \<or> currentChar l = CHR ''_'')")
    case True
    with 1 show ?thesis
      by (subst (1 2) readIdentifier_loop.simps) (auto simp: advance_def)
  next
    case False
    then show ?thesis by (subst (1 2) readIdentifier_loop.simps) auto
  qed
qed

lemma readNumber_progress:
  assumes "position l < length (input l)" "isDigit (currentChar l)"
  shows "input (snd (readNumber l)) = input l \<and> position l < position (snd (readNumber l))"
proof -
  have "readNumber_loop l = readNumber_loop (advance l)"
    using assms by (subst readNumber_loop.simps) simp
  moreover have "position (advance l) \<le> position (readNumber_loop (advance l))"
    "input (readNumber_loop (advance l)) = input (advance l)"
    using readNumber_loop_mono by blast+
  ultimately show ?thesis by (simp add: readNumber_def Let_def advance_def)
qed

lemma readText_progress:
  "input (snd (readText l)) = input l \<and> position l < position (snd (readText l))"
proof -
  have "position (advance l) \<le> position (readText_loop (advance l))"
    "input (readText_loop (advance l)) = input (advance l)"
    using readText_loop_mono by blast+
  then show ?thesis by (auto simp: readText_def Let_def advance_def)
qed

lemma readIdentifier_progress:
  assumes "position l < length (input l)" "isLetter (currentChar l)"
  shows "input (snd (readIdentifierOrKeyword l)) = input l \<and>
         position l < position (snd (readIdentifierOrKeyword l))"
proof -
  have "readIdentifier_loop l = readIdentifier_loop (advance l)"
    using assms by (subst readIdentifier_loop.simps) simp
  moreover have "position (advance l) \<le> position (readIdentifier_loop (advance l))"
    "input (readIdentifier_loop (advance l)) = input (advance l)"
    using readIdentifier_loop_mono by blast+
  ultimately show ?thesis by (simp add: readIdentifierOrKeyword_def Let_def advance_def)
qed

lemma single_progress:
  "input (snd (single ty v l)) = input l \<and> position l < position (snd (single ty v l))"
  by (simp add: single_def Let_def advance_def)

lemma single_or_eq_progress:
  "input (snd (single_or_eq a b c d l)) = input l \<and> position l < position (snd (single_or_eq a b c d l))"
  by (simp add: single_or_eq_def Let_def advance_def)

lemma nextToken_progress:
  assumes "position l < length (input l)" "Type (fst (nextToken l)) \<noteq> TokenError"
  shows "input (snd (nextToken l)) = input l \<and> position l < position (snd (nextToken l))"
  using assms readNumber_progress[of l] readText_progress[of l] readIdentifier_progress[of l]
    single_progress[of _ _ l] single_or_eq_progress[of _ _ _ _ l]
  unfolding nextToken_def Let_def
  by (auto split: if_splits)

function Tokenize_loop :: "Lexer \<Rightarrow> lex_error + Lexer" where
  "Tokenize_loop l =
     (if position l < length (input l)
      then (let l1 = skipWhitespace l in
            if position l1 \<ge> length (input l1) then Inr l1
            else (let r = nextToken l1; token = fst r; l2 = snd r in
                  if Type token = TokenError
                  then Inl (LexicalError (Line token) (Column token) (Value token))
                  else Tokenize_loop (l2\<lparr>tokens := tokens l2 @ [token]\<rparr>)))
      else Inr l)"
  by pat_completeness auto
termination
proof (relation "measure (\<lambda>l. length (input l) - position l)")
  show "wf (measure (\<lambda>l. length (input l) - position l))" by simp
next
  fix l l1 r token l2
  assume a: "position l < length (input l)" "l1 = skipWhitespace l"
    "\<not> length (input l1) \<le> position l1" "r = nextToken l1" "token = fst r" "l2 = snd r"
    "Type token \<noteq> TokenError"
  have 1: "input l1 = input l" "position l \<le> position l1"
    using skipWhitespace_mono[of l] a(2) by simp_all
  have 2: "input l2 = input l1" "position l1 < position l2"
    using nextToken_progress[of l1] a by simp_all
  show "(l2\<lparr>tokens := tokens l2 @ [token]\<rparr>, l) \<in> measure (\<lambda>l. length (input l) - position l)"
    using 1 2 a(3) by simp
qed

declare Tokenize_loop.simps [simp del]

definition Tokenize :: "Lexer \<Rightarrow> lex_error + Token list" where
  "Tokenize l =
     (case Tokenize_loop l of
        Inl e \<Rightarrow> Inl e
      | Inr l' \<Rightarrow> Inr (tokens l' @
          [\<lparr>Type = TokenEOF, Value = [], Line = line l', Column = column l', Literal = PNil\<rparr>]))"

section \<open>Types and values (package types)\<close>

datatype types_Type = NumberType | TextType | BooleanType | VoidType

fun Type_String :: "types_Type \<Rightarrow> string" where
  "Type_String NumberType = ''number''"
| "Type_String TextType = ''text''"
| "Type_String BooleanType = ''boolean''"
| "Type_String VoidType = ''void''"

fun IsCompatibleWith :: "types_Type \<Rightarrow> types_Type \<Rightarrow> bool" where
  "IsCompatibleWith NumberType other = (other = NumberType)"
| "IsCompatibleWith TextType other = (other = TextType)"
| "IsCompatibleWith BooleanType other = (other = BooleanType)"
| "IsCompatibleWith VoidType other = True"

definition TypeFromString :: "string \<Rightarrow> string + types_Type" where
  "TypeFromString typeStr =
     (if typeStr = ''number'' then Inr NumberType
      else if typeStr = ''text'' then Inr TextType
      else if typeStr = ''boolean'' then Inr BooleanType
      else if typeStr = ''void'' then Inr VoidType
      else Inl (''unknown type: '' @ typeStr))"

text \<open>
  A \<^verbatim>\<open>float64\<close> is modelled by a real number: the arithmetic of the operators is exact,
  and there is no rounding, overflow, signed zero or NaN. On integers of magnitude up to
  \<open>2^53\<close>, where \<^verbatim>\<open>float64\<close> addition, subtraction, multiplication and comparison are
  exact as long as the results stay in that range, the two agree. The one operation that
  is modelled with its rounding is the increment \<^verbatim>\<open>j++\<close> of the counter of a loop (below),
  because whether and when a loop ends depends on it.
\<close>

datatype Value = NumberValue real | TextValue string | BooleanValue bool | VoidValue

fun Value_Type :: "Value \<Rightarrow> types_Type" where
  "Value_Type (NumberValue n) = NumberType"
| "Value_Type (TextValue t) = TextType"
| "Value_Type (BooleanValue b) = BooleanType"
| "Value_Type VoidValue = VoidType"

subsection \<open>The increment of a float64\<close>

text \<open>The number of binary digits of a natural number.\<close>

fun bit_length :: "nat \<Rightarrow> nat" where
  "bit_length m = (if m = 0 then 0 else Suc (bit_length (m div 2)))"

declare bit_length.simps [simp del]

text \<open>
  The \<^verbatim>\<open>float64\<close> nearest to an integer (of magnitude below \<open>2^1024\<close>): a \<^verbatim>\<open>float64\<close>
  holds 53 binary digits, so with \<open>u\<close> the weight of the last digit kept, the integer is
  rounded to the nearest multiple of \<open>u\<close>, and half way between two of them to the one
  whose last digit kept is even.
\<close>

definition float64_of_int :: "int \<Rightarrow> int" where
  "float64_of_int k =
     (let m = nat \<bar>k\<bar>;
          u = 2 ^ (bit_length m - 53);
          q = m div u;
          r = m mod u;
          q' = (if 2 * r < u \<or> (2 * r = u \<and> even q) then q else q + 1)
      in sgn k * int (q' * u))"

text \<open>
  \<^verbatim>\<open>j++\<close> on a \<^verbatim>\<open>float64\<close> is \<open>j + 1\<close> rounded to a \<^verbatim>\<open>float64\<close>. For a counter with a
  fractional part the result depends on the binary digits of the fraction, and is left
  unspecified.
\<close>

definition increment_fraction :: "real \<Rightarrow> real" where
  "increment_fraction = (SOME f. True)"

definition increment :: "real \<Rightarrow> real" where
  "increment j =
     (if j = of_int \<lfloor>j\<rfloor> then of_int (float64_of_int (\<lfloor>j\<rfloor> + 1))
      else increment_fraction j)"

subsection \<open>Formatting and scanning numbers (package fmt)\<close>

definition digit_char :: "nat \<Rightarrow> char" where
  "digit_char d = ''0123456789'' ! d"

fun show_nat :: "nat \<Rightarrow> string" where
  "show_nat n = (if n < 10 then [digit_char n] else show_nat (n div 10) @ [digit_char (n mod 10)])"

declare show_nat.simps [simp del]

definition show_int :: "int \<Rightarrow> string" where
  "show_int k = (if k < 0 then CHR ''-'' # show_nat (nat (- k)) else show_nat (nat k))"

text \<open>The decimal digits without the zeros at the end (of a positive number).\<close>

definition strip_zeros :: "string \<Rightarrow> string" where
  "strip_zeros ds = rev (dropWhile (\<lambda>c. c = CHR ''0'') (rev ds))"

text \<open>
  \<^verbatim>\<open>%g\<close> of a non-integral number prints the shortest decimal that reads back as the
  same \<^verbatim>\<open>float64\<close>, which depends on the binary rounding this model leaves out: the
  result is left unspecified.
\<close>

definition format_g_fraction :: "real \<Rightarrow> string" where
  "format_g_fraction = (SOME f. True)"

text \<open>
  \<^verbatim>\<open>fmt.Sprintf("%g", x)\<close>: with decimal exponent \<open>e\<close> of the first digit, the number is
  written in positional form when \<open>e < 6\<close> (the form with an exponent when \<open>e < -4\<close> can
  only be that of a non-integral number) and as \<^verbatim>\<open>d.ddde+XX\<close> otherwise, the exponent
  with two digits at least.
\<close>

definition format_g :: "real \<Rightarrow> string" where
  "format_g x =
     (if x = of_int \<lfloor>x\<rfloor>
      then (let n = nat \<bar>\<lfloor>x\<rfloor>\<bar>; sign = (if x < 0 then [CHR ''-''] else []); ds = show_nat n in
            if n < 1000000 then sign @ ds
            else (let m = strip_zeros ds; e = length ds - 1 in
                  sign @ [hd m] @ (if tl m = [] then [] else CHR ''.'' # tl m) @ ''e+'' @
                  (if e < 10 then [CHR ''0''] else []) @ show_nat e))
      else format_g_fraction x)"

fun Value_String :: "Value \<Rightarrow> string" where
  "Value_String (NumberValue n) = format_g n"
| "Value_String (TextValue t) = t"
| "Value_String (BooleanValue b) = (if b then ''true'' else ''false'')"
| "Value_String VoidValue = ''void''"

definition digits_value :: "string \<Rightarrow> nat" where
  "digits_value ds = foldl (\<lambda>a c. 10 * a + (of_char c - 48)) 0 ds"

text \<open>
  \<^verbatim>\<open>fmt.Sscanf(str, "%f", &num)\<close> on input outside the scanner's number alphabet (a sign,
  an exponent, spaces, \<^verbatim>\<open>NaN\<close>, hexadecimal digits, ...): not modelled, left unspecified.
\<close>

definition sscanf_f_other :: "string \<Rightarrow> real option" where
  "sscanf_f_other = (SOME f. True)"

text \<open>
  \<^verbatim>\<open>fmt.Sscanf(str, "%f", &num)\<close> reads the longest prefix of the input that has the
  shape of a floating-point number (digits, then at most one period followed by digits)
  and converts it with \<^verbatim>\<open>strconv.ParseFloat\<close>; what follows the prefix is left unread,
  and is no error. The conversion fails only when the number rounds to infinity, that is
  from \<open>2^1024 - 2^970\<close> on. \<open>None\<close> is a returned error.
\<close>

definition sscanf_f :: "string \<Rightarrow> real option" where
  "sscanf_f str =
     (if str \<noteq> [] \<and> isDigit (hd str) \<and> list_all (\<lambda>c. isDigit c \<or> c = CHR ''.'') str
      then (let ip = takeWhile isDigit str;
                rest = dropWhile isDigit str;
                fp = (case rest of [] \<Rightarrow> [] | c # cs \<Rightarrow> takeWhile isDigit cs);
                v = real (digits_value ip) + real (digits_value fp) / 10 ^ length fp
            in if v \<ge> 2 ^ 1024 - 2 ^ 970 then None else Some v)
      else sscanf_f_other str)"

section \<open>Program tree (package ast)\<close>

datatype Expression =
    LiteralNode payload types_Type
  | Identifier string
  | BinaryExpression Expression string Expression
  | UnaryExpression string Expression
  | FunctionCall string "Expression list"

datatype Parameter = Parameter (param_Name: string) (param_Type: types_Type)

datatype Statement =
    VariableDeclaration types_Type string Expression
  | Assignment string Expression
  | IfStatement Expression "Statement list" "Statement list"
  | LoopStatement string Expression Expression "Statement list"
  | FunctionDeclaration string "Parameter list" types_Type "Statement list"
  | PrintStatement Expression

section \<open>Evaluator (package interpreter)\<close>

text \<open>
  A Go \<^verbatim>\<open>error\<close> made by \<^verbatim>\<open>fmt.Errorf\<close> is the message it carries.
\<close>

type_synonym error = string

text \<open>The fields of an \<^verbatim>\<open>*ast.FunctionDeclaration\<close>, as a frame's function table holds it.\<close>

type_synonym FunctionDecl = "string \<times> Parameter list \<times> types_Type \<times> Statement list"

text \<open>
  One \<^verbatim>\<open>Environment\<close> object is a frame; the \<^verbatim>\<open>parent\<close> pointers make a chain, which is
  the list of frames from the innermost to the root. The evaluator enters a frame and
  leaves it in stack order (\<^verbatim>\<open>defer\<close> restores the old environment on every path),
  and it writes into the innermost frame only, so the chain that \<^verbatim>\<open>i.environment\<close>
  points at is this list, and restoring \<^verbatim>\<open>oldEnv\<close> drops the first frame.
\<close>

record Frame =
  variables :: "string \<rightharpoonup> Value"
  functions_map :: "string \<rightharpoonup> FunctionDecl"

type_synonym Environment = "Frame list"

definition NewFrame :: Frame where
  "NewFrame = \<lparr>variables = Map.empty, functions_map = Map.empty\<rparr>"

definition NewEnvironment :: "Environment \<Rightarrow> Environment" where
  "NewEnvironment parent = NewFrame # parent"

text \<open>The receiver of these methods is never nil; the empty chain is there for totality.\<close>

fun SetVariable :: "Environment \<Rightarrow> string \<Rightarrow> Value \<Rightarrow> Environment" where
  "SetVariable [] name v = []"
| "SetVariable (e # parent) name v = e\<lparr>variables := (variables e)(name \<mapsto> v)\<rparr> # parent"

fun GetVariable :: "Environment \<Rightarrow> string \<Rightarrow> Value option" where
  "GetVariable [] name = None"
| "GetVariable (e # parent) name =
     (case variables e name of Some v \<Rightarrow> Some v | None \<Rightarrow> GetVariable parent name)"

fun SetFunction :: "Environment \<Rightarrow> string \<Rightarrow> FunctionDecl \<Rightarrow> Environment" where
  "SetFunction [] name f = []"
| "SetFunction (e # parent) name f = e\<lparr>functions_map := (functions_map e)(name \<mapsto> f)\<rparr> # parent"

fun GetFunction :: "Environment \<Rightarrow> string \<Rightarrow> FunctionDecl option" where
  "GetFunction [] name = None"
| "GetFunction (e # parent) name =
     (case functions_map e name of Some f \<Rightarrow> Some f | None \<Rightarrow> GetFunction parent name)"

text \<open>
  The interpreter's state: its current environment and, since \<^verbatim>\<open>fmt.Println\<close> writes
  to the standard output of the process, the lines written so far.
\<close>

record Interpreter =
  environment :: Environment
  stdout :: "string list"

definition NewInterpreter :: Interpreter where
  "NewInterpreter = \<lparr>environment = NewEnvironment [], stdout = []\<rparr>"

subsection \<open>Operators\<close>

fun add :: "Value \<Rightarrow> Value \<Rightarrow> error + Value" where
  "add (NumberValue l) (NumberValue r) = Inr (NumberValue (l + r))"
| "add (TextValue l) (TextValue r) = Inr (TextValue (l @ r))"
| "add (TextValue l) (NumberValue r) = Inr (TextValue (l @ format_g r))"
| "add (NumberValue l) (TextValue r) = Inr (TextValue (format_g l @ r))"
| "add left right =
     Inl (''cannot add '' @ Type_String (Value_Type left) @ '' and '' @
          Type_String (Value_Type right))"

fun subtract :: "Value \<Rightarrow> Value \<Rightarrow> error + Value" where
  "subtract (NumberValue l) (NumberValue r) = Inr (NumberValue (l - r))"
| "subtract left right =
     Inl (''cannot subtract '' @ Type_String (Value_Type right) @ '' from '' @
          Type_String (Value_Type left))"

fun multiply :: "Value \<Rightarrow> Value \<Rightarrow> error + Value" where
  "multiply (NumberValue l) (NumberValue r) = Inr (NumberValue (l * r))"
| "multiply left right =
     Inl (''cannot multiply '' @ Type_String (Value_Type left) @ '' and '' @
          Type_String (Value_Type right))"

fun divide_v :: "Value \<Rightarrow> Value \<Rightarrow> error + Value" where
  "divide_v (NumberValue l) (NumberValue r) =
     (if r = 0 then Inl ''division by zero'' else Inr (NumberValue (l / r)))"
| "divide_v left right =
     Inl (''cannot divide '' @ Type_String (Value_Type left) @ '' by '' @
          Type_String (Value_Type right))"

fun equal_v :: "Value \<Rightarrow> Value \<Rightarrow> error + Value" where
  "equal_v left right =
     (if Value_Type left \<noteq> Value_Type right then Inr (BooleanValue False)
      else (case (left, right) of
              (NumberValue l, NumberValue r) \<Rightarrow> Inr (BooleanValue (\<bar>l - r\<bar> < 1 / 10 ^ 9))
            | (TextValue l, TextValue r) \<Rightarrow> Inr (BooleanValue (l = r))
            | (BooleanValue l, BooleanValue r) \<Rightarrow> Inr (BooleanValue (l = r))
            | _ \<Rightarrow> Inr (BooleanValue False)))"

fun notEqual :: "Value \<Rightarrow> Value \<Rightarrow> error + Value" where
  "notEqual left right =
     (case equal_v left right of
        Inl err \<Rightarrow> Inl err
      | Inr (BooleanValue b) \<Rightarrow> Inr (BooleanValue (\<not> b))
      | Inr other \<Rightarrow> Inr other)"

definition cannot_compare :: "Value \<Rightarrow> Value \<Rightarrow> error" where
  "cannot_compare left right =
     ''cannot compare '' @ Type_String (Value_Type left) @ '' and '' @
     Type_String (Value_Type right)"

fun lessThan :: "Value \<Rightarrow> Value \<Rightarrow> error + Value" where
  "lessThan (NumberValue l) (NumberValue r) = Inr (BooleanValue (l < r))"
| "lessThan left right = Inl (cannot_compare left right)"

fun lessEqual :: "Value \<Rightarrow> Value \<Rightarrow> error + Value" where
  "lessEqual (NumberValue l) (NumberValue r) = Inr (BooleanValue (l \<le> r))"
| "lessEqual left right = Inl (cannot_compare left right)"

fun greaterThan :: "Value \<Rightarrow> Value \<Rightarrow> error + Value" where
  "greaterThan (NumberValue l) (NumberValue r) = Inr (BooleanValue (l > r))"
| "greaterThan left right = Inl (cannot_compare left right)"

fun greaterEqual :: "Value \<Rightarrow> Value \<Rightarrow> error + Value" where
  "greaterEqual (NumberValue l) (NumberValue r) = Inr (BooleanValue (l \<ge> r))"
| "greaterEqual left right = Inl (cannot_compare left right)"

fun logicalAnd :: "Value \<Rightarrow> Value \<Rightarrow> error + Value" where
  "logicalAnd (BooleanValue l) (BooleanValue r) = Inr (BooleanValue (l \<and> r))"
| "logicalAnd left right =
     Inl (''cannot perform logical AND on '' @ Type_String (Value_Type left) @ '' and '' @
          Type_String (Value_Type right))"

fun logicalOr :: "Value \<Rightarrow> Value \<Rightarrow> error + Value" where
  "logicalOr (BooleanValue l) (BooleanValue r) = Inr (BooleanValue (l \<or> r))"
| "logicalOr left right =
     Inl (''cannot perform logical OR on '' @ Type_String (Value_Type left) @ '' and '' @
          Type_String (Value_Type right))"

text \<open>The \<^verbatim>\<open>switch expr.Operator\<close> of \<^verbatim>\<open>evaluateBinaryExpression\<close>, on the two values.\<close>

definition applyBinary :: "string \<Rightarrow> Value \<Rightarrow> Value \<Rightarrow> error + Value" where
  "applyBinary operator left right =
     (if operator = ''+'' then add left right
      else if operator = ''-'' then subtract left right
      else if operator = ''*'' then multiply left right
      else if operator = ''/'' then divide_v left right
      else if operator = ''=='' then equal_v left right
      else if operator = ''!='' then notEqual left right
      else if operator = ''<'' then lessThan left right
      else if operator = ''<='' then lessEqual left right
      else if operator = ''>'' then greaterThan left right
      else if operator = ''>='' then greaterEqual left right
      else if operator = ''and'' then logicalAnd left right
      else if operator = ''or'' then logicalOr left right
      else Inl (''unknown binary operator: '' @ operator))"

text \<open>The \<^verbatim>\<open>switch expr.Operator\<close> of \<^verbatim>\<open>evaluateUnaryExpression\<close>, on the value.\<close>

definition applyUnary :: "string \<Rightarrow> Value \<Rightarrow> error + Value" where
  "applyUnary operator operand =
     (if operator = ''-'' then
        (case operand of NumberValue n \<Rightarrow> Inr (NumberValue (- n))
         | _ \<Rightarrow> Inl ''cannot negate non-number value'')
      else if operator = ''!'' then
        (case operand of BooleanValue b \<Rightarrow> Inr (BooleanValue (\<not> b))
         | _ \<Rightarrow> Inl ''cannot negate non-boolean value'')
      else Inl (''unknown unary operator: '' @ operator))"

definition evaluateLiteral :: "payload \<Rightarrow> types_Type \<Rightarrow> error + Value" where
  "evaluateLiteral v ty =
     (case ty of
        NumberType \<Rightarrow>
          (case v of
             PString str \<Rightarrow>
               (case sscanf_f str of
                  None \<Rightarrow> Inl (''invalid number: '' @ str)
                | Some num \<Rightarrow> Inr (NumberValue num))
           | _ \<Rightarrow> Inl ''invalid number literal'')
      | TextType \<Rightarrow>
          (case v of PString str \<Rightarrow> Inr (TextValue str) | _ \<Rightarrow> Inl ''invalid text literal'')
      | BooleanType \<Rightarrow>
          (case v of PBool b \<Rightarrow> Inr (BooleanValue b) | _ \<Rightarrow> Inl ''invalid boolean literal'')
      | VoidType \<Rightarrow> Inl (''unknown literal type: '' @ Type_String ty))"

text \<open>
  The loop of \<^verbatim>\<open>evaluateFunctionCall\<close> that checks each argument against its parameter
  and binds it in the new frame; it is run after the argument count has been checked.
\<close>

fun bindParameters :: "string \<Rightarrow> Parameter list \<Rightarrow> Value list \<Rightarrow> Environment \<Rightarrow> error + Environment" where
  "bindParameters fname (p # ps) (a # as) funcEnv =
     (if \<not> IsCompatibleWith (param_Type p) (Value_Type a)
      then Inl (''type mismatch in function '' @ fname @ '': parameter '' @ param_Name p @
                '' expects '' @ Type_String (param_Type p) @ '', got '' @
                Type_String (Value_Type a))
      else bindParameters fname ps as (SetVariable funcEnv (param_Name p) a))"
| "bindParameters fname ps as funcEnv = Inr funcEnv"

subsection \<open>Statements and expressions\<close>

text \<open>
  The program can call a procedure that calls itself, so the evaluator need not return.
  Every function below takes a bound on the depth of the calls it may make and answers
  \<open>None\<close> when the bound is reached; a result \<open>Some (r, i)\<close> is what the Go function returns
  (\<open>Inl\<close> the error, \<open>Inr\<close> the value) together with the interpreter it leaves behind.
  \<open>executeBody\<close> is the loop \<^verbatim>\<open>for _, statement := range body\<close>, \<open>evaluateArguments\<close> the
  loop over \<^verbatim>\<open>call.Arguments\<close>, and \<open>loop_iterations\<close> the loop
  \<^verbatim>\<open>for j := from; j <= to; j++\<close> of \<^verbatim>\<open>executeLoopStatement\<close>.
\<close>

text \<open>
  The Go idiom \<^verbatim>\<open>v, err := f(); if err != nil { return nil, err }\<close>: the rest of the
  function runs on the value and the interpreter that \<open>f\<close> leaves, an error is returned
  as it is, and so is a call that has not returned within the bound.
\<close>

definition on_success ::
  "((error + 'a) \<times> Interpreter) option \<Rightarrow> ('a \<Rightarrow> Interpreter \<Rightarrow> ((error + 'b) \<times> Interpreter) option)
   \<Rightarrow> ((error + 'b) \<times> Interpreter) option" where
  "on_success m rest =
     (case m of
        None \<Rightarrow> None
      | Some (Inl err, i) \<Rightarrow> Some (Inl err, i)
      | Some (Inr v, i) \<Rightarrow> rest v i)"

text \<open>
  The deferred \<^verbatim>\<open>i.environment = oldEnv\<close> of a loop or a call, which runs whether the
  body failed or not; the construct then returns the error or \<^verbatim>\<open>VoidValue\<close>.
\<close>

definition restore_environment ::
  "((error + unit) \<times> Interpreter) option \<Rightarrow> ((error + Value) \<times> Interpreter) option" where
  "restore_environment m =
     (case m of
        None \<Rightarrow> None
      | Some (Inl err, i) \<Rightarrow> Some (Inl err, i\<lparr>environment := tl (environment i)\<rparr>)
      | Some (Inr u, i) \<Rightarrow> Some (Inr VoidValue, i\<lparr>environment := tl (environment i)\<rparr>))"

function (sequential) executeStatement :: "nat \<Rightarrow> Statement \<Rightarrow> Interpreter \<Rightarrow> ((error + Value) \<times> Interpreter) option"
and executeBody :: "nat \<Rightarrow> Statement list \<Rightarrow> Interpreter \<Rightarrow> ((error + unit) \<times> Interpreter) option"
and loop_iterations ::
  "nat \<Rightarrow> string \<Rightarrow> real \<Rightarrow> real \<Rightarrow> Statement list \<Rightarrow> Interpreter \<Rightarrow> ((error + unit) \<times> Interpreter) option"
and evaluateExpression :: "nat \<Rightarrow> Expression \<Rightarrow> Interpreter \<Rightarrow> ((error + Value) \<times> Interpreter) option"
and evaluateArguments ::
  "nat \<Rightarrow> Expression list \<Rightarrow> Value list \<Rightarrow> Interpreter \<Rightarrow> ((error + Value list) \<times> Interpreter) option"
where
  "executeStatement 0 stmt i = None"
| "executeStatement (Suc n) (VariableDeclaration ty name e) i =
     on_success (evaluateExpression n e i) (\<lambda>v i1.
       if \<not> IsCompatibleWith ty (Value_Type v)
       then Some (Inl (''type mismatch: cannot assign '' @ Type_String (Value_Type v) @
                       '' to variable of type '' @ Type_String ty), i1)
       else Some (Inr v, i1\<lparr>environment := SetVariable (environment i1) name v\<rparr>))"
| "executeStatement (Suc n) (Assignment name e) i =
     on_success (evaluateExpression n e i) (\<lambda>v i1.
       case GetVariable (environment i1) name of
         None \<Rightarrow> Some (Inl (''undefined variable: '' @ name), i1)
       | Some old \<Rightarrow> Some (Inr v, i1\<lparr>environment := SetVariable (environment i1) name v\<rparr>))"
| "executeStatement (Suc n) (IfStatement c thenBody elseBody) i =
     on_success (evaluateExpression n c i) (\<lambda>condition i1.
       case condition of
         BooleanValue b \<Rightarrow>
           on_success (executeBody n (if b then thenBody else elseBody) i1)
             (\<lambda>u i2. Some (Inr VoidValue, i2))
       | _ \<Rightarrow> Some (Inl (''condition must be boolean, got '' @
                         Type_String (Value_Type condition)), i1))"
| "executeStatement (Suc n) (LoopStatement var fromE toE body) i =
     on_success (evaluateExpression n fromE i) (\<lambda>fromValue i1.
       on_success (evaluateExpression n toE i1) (\<lambda>toValue i2.
         case (fromValue, toValue) of
           (NumberValue from, NumberValue to) \<Rightarrow>
             restore_environment
               (loop_iterations n var from to body
                  (i2\<lparr>environment := NewEnvironment (environment i2)\<rparr>))
         | _ \<Rightarrow> Some (Inl ''loop bounds must be numbers'', i2)))"
| "executeStatement (Suc n) (FunctionDeclaration name params returnType body) i =
     Some (Inr VoidValue,
           i\<lparr>environment := SetFunction (environment i) name (name, params, returnType, body)\<rparr>)"
| "executeStatement (Suc n) (PrintStatement e) i =
     on_success (evaluateExpression n e i) (\<lambda>v i1.
       Some (Inr VoidValue, i1\<lparr>stdout := stdout i1 @ [Value_String v]\<rparr>))"
| "executeBody 0 body i = None"
| "executeBody (Suc n) [] i = Some (Inr (), i)"
| "executeBody (Suc n) (statement # rest) i =
     on_success (executeStatement n statement i) (\<lambda>v i1. executeBody n rest i1)"
| "loop_iterations 0 var j to body i = None"
| "loop_iterations (Suc n) var j to body i =
     (if j \<le> to
      then on_success
             (executeBody n body
                (i\<lparr>environment := SetVariable (environment i) var (NumberValue j)\<rparr>))
             (\<lambda>u i1. loop_iterations n var (increment j) to body i1)
      else Some (Inr (), i))"
| "evaluateExpression 0 e i = None"
| "evaluateExpression (Suc n) (LiteralNode v ty) i = Some (evaluateLiteral v ty, i)"
| "evaluateExpression (Suc n) (Identifier name) i =
     (case GetVariable (environment i) name of
        None \<Rightarrow> Some (Inl (''undefined variable: '' @ name), i)
      | Some v \<Rightarrow> Some (Inr v, i))"
| "evaluateExpression (Suc n) (BinaryExpression l operator r) i =
     on_success (evaluateExpression n l i) (\<lambda>left i1.
       on_success (evaluateExpression n r i1) (\<lambda>right i2.
         Some (applyBinary operator left right, i2)))"
| "evaluateExpression (Suc n) (UnaryExpression operator e) i =
     on_success (evaluateExpression n e i) (\<lambda>operand i1.
       Some (applyUnary operator operand, i1))"
| "evaluateExpression (Suc n) (FunctionCall name arguments) i =
     (case GetFunction (environment i) name of
        None \<Rightarrow> Some (Inl (''undefined function: '' @ name), i)
      | Some (fname, params, returnType, body) \<Rightarrow>
          on_success (evaluateArguments n arguments [] i) (\<lambda>args i1.
            if length args \<noteq> length params
            then Some (Inl (''function '' @ name @ '' expects '' @ show_nat (length params) @
                            '' arguments, got '' @ show_nat (length args)), i1)
            else (case bindParameters name params args (NewEnvironment (environment i1)) of
                    Inl err \<Rightarrow> Some (Inl err, i1)
                  | Inr funcEnv \<Rightarrow>
                      restore_environment
                        (executeBody n body (i1\<lparr>environment := funcEnv\<rparr>)))))"
| "evaluateArguments 0 arguments args i = None"
| "evaluateArguments (Suc n) [] args i = Some (Inr args, i)"
| "evaluateArguments (Suc n) (arg # rest) args i =
     on_success (evaluateExpression n arg i) (\<lambda>v i1.
       evaluateArguments n rest (args @ [v]) i1)"

  by pat_completeness auto


termination
  by (relation "measure (case_sum (case_sum fst fst) (case_sum fst (case_sum fst fst)))") simp_all

text \<open>\<^verbatim>\<open>Interpret\<close>: the statements of the program in order, up to the first error.\<close>

definition Interpret :: "nat \<Rightarrow> Statement list \<Rightarrow> Interpreter \<Rightarrow> ((error + unit) \<times> Interpreter) option" where
  "Interpret n program i = executeBody n program i"

section \<open>Parser (package parser)\<close>

text \<open>
  The parser's state is the token list, which it never changes, and the position
  \<^verbatim>\<open>p.pos\<close>; \<^verbatim>\<open>p.advance()\<close> is \<open>pos + 1\<close>. \<^verbatim>\<open>lexer.Token{Type: lexer.TokenEOF}\<close> has Go's
  zero values in its other fields.
\<close>

definition eofToken :: Token where
  "eofToken = \<lparr>Type = TokenEOF, Value = [], Line = 0, Column = 0, Literal = PNil\<rparr>"

definition current :: "Token list \<Rightarrow> nat \<Rightarrow> Token" where
  "current toks pos = (if pos \<ge> length toks then eofToken else toks ! pos)"

definition peek :: "Token list \<Rightarrow> nat \<Rightarrow> Token" where
  "peek toks pos = (if pos + 1 \<ge> length toks then eofToken else toks ! (pos + 1))"

text \<open>
  A parsing function returns the node and the position it stops at, or an error
  (\<open>Inl\<close>). The functions that call each other also take a bound on the depth of their
  calls, and \<open>None\<close> says that the bound was reached.
\<close>

type_synonym 'a parsed = "(string + 'a \<times> nat) option"

text \<open>\<^verbatim>\<open>x, err := p.parse...(); if err != nil { return nil, err }\<close>, then the rest.\<close>

definition then_parse :: "'a parsed \<Rightarrow> ('a \<Rightarrow> nat \<Rightarrow> 'b parsed) \<Rightarrow> 'b parsed" where
  "then_parse m rest =
     (case m of
        None \<Rightarrow> None
      | Some (Inl err) \<Rightarrow> Some (Inl err)
      | Some (Inr (x, pos)) \<Rightarrow> rest x pos)"

subsection \<open>Expressions\<close>

text \<open>
  \<^verbatim>\<open>parseLogicalOr\<close>, \<^verbatim>\<open>parseLogicalAnd\<close>, \<^verbatim>\<open>parseEquality\<close>, \<^verbatim>\<open>parseComparison\<close>,
  \<^verbatim>\<open>parseTerm\<close> and \<^verbatim>\<open>parseFactor\<close> are one function written six times: parse an
  operand with the function of the next level, then, as long as the current token is one
  of the level's operators, take it and parse another operand. \<open>parseBinary\<close> is that
  function with the level as an argument, \<open>parseBinary_loop\<close> its \<^verbatim>\<open>for\<close> loop.
\<close>

datatype level = LogicalOr | LogicalAnd | Equality | Comparison | Term | Factor

fun level_operators :: "level \<Rightarrow> TokenType list" where
  "level_operators LogicalOr = [TokenOr]"
| "level_operators LogicalAnd = [TokenAnd]"
| "level_operators Equality = [TokenEqual, TokenNotEqual]"
| "level_operators Comparison =
     [TokenLessThan, TokenLessEqual, TokenGreaterThan, TokenGreaterEqual]"
| "level_operators Term = [TokenPlus, TokenMinus]"
| "level_operators Factor = [TokenMultiply, TokenDivide]"

text \<open>The level whose function parses the operands; \<open>None\<close> is \<^verbatim>\<open>parseUnary\<close>.\<close>

fun next_level :: "level \<Rightarrow> level option" where
  "next_level LogicalOr = Some LogicalAnd"
| "next_level LogicalAnd = Some Equality"
| "next_level Equality = Some Comparison"
| "next_level Comparison = Some Term"
| "next_level Term = Some Factor"
| "next_level Factor = None"

function (sequential) parseExpression :: "nat \<Rightarrow> Token list \<Rightarrow> nat \<Rightarrow> Expression parsed"
and parseBinary :: "nat \<Rightarrow> level \<Rightarrow> Token list \<Rightarrow> nat \<Rightarrow> Expression parsed"
and parseBinary_loop :: "nat \<Rightarrow> level \<Rightarrow> Token list \<Rightarrow> Expression \<Rightarrow> nat \<Rightarrow> Expression parsed"
and parseUnary :: "nat \<Rightarrow> Token list \<Rightarrow> nat \<Rightarrow> Expression parsed"
and parsePrimary :: "nat \<Rightarrow> Token list \<Rightarrow> nat \<Rightarrow> Expression parsed"
and parseFunctionCall :: "nat \<Rightarrow> string \<Rightarrow> Token list \<Rightarrow> nat \<Rightarrow> Expression parsed"
and parseArguments :: "nat \<Rightarrow> Token list \<Rightarrow> Expression list \<Rightarrow> nat \<Rightarrow> (Expression list) parsed"
where
  "parseExpression 0 toks pos = None"
| "parseExpression (Suc n) toks pos = parseBinary n LogicalOr toks pos"
| "parseBinary 0 lvl toks pos = None"
| "parseBinary (Suc n) lvl toks pos =
     then_parse
       (case next_level lvl of
          Some lvl' \<Rightarrow> parseBinary n lvl' toks pos
        | None \<Rightarrow> parseUnary n toks pos)
       (\<lambda>left pos1. parseBinary_loop n lvl toks left pos1)"
| "parseBinary_loop 0 lvl toks left pos = None"
| "parseBinary_loop (Suc n) lvl toks left pos =
     (if Type (current toks pos) \<in> set (level_operators lvl)
      then then_parse
             (case next_level lvl of
                Some lvl' \<Rightarrow> parseBinary n lvl' toks (pos + 1)
              | None \<Rightarrow> parseUnary n toks (pos + 1))
             (\<lambda>right pos1.
                parseBinary_loop n lvl toks
                  (BinaryExpression left (Value (current toks pos)) right) pos1)
      else Some (Inr (left, pos)))"
| "parseUnary 0 toks pos = None"
| "parseUnary (Suc n) toks pos =
     (if Type (current toks pos) = TokenMinus \<or> Type (current toks pos) = TokenNot
      then then_parse (parseUnary n toks (pos + 1))
             (\<lambda>operand pos1.
                Some (Inr (UnaryExpression (Value (current toks pos)) operand, pos1)))
      else parsePrimary n toks pos)"
| "parsePrimary 0 toks pos = None"
| "parsePrimary (Suc n) toks pos =
     (let token = current toks pos in
      if Type token = TokenNumber
      then Some (Inr (LiteralNode (Literal token) NumberType, pos + 1))
      else if Type token = TokenText
      then Some (Inr (LiteralNode (Literal token) TextType, pos + 1))
      else if Type token = TokenBoolean
      then Some (Inr (LiteralNode (Literal token) BooleanType, pos + 1))
      else if Type token = TokenIdentifier
      then (if Type (current toks (pos + 1)) = TokenLeftParen
            then parseFunctionCall n (Value token) toks (pos + 1)
            else Some (Inr (Identifier (Value token), pos + 1)))
      else if Type token = TokenLeftParen
      then then_parse (parseExpression n toks (pos + 1))
             (\<lambda>expr pos1.
                if Type (current toks pos1) \<noteq> TokenRightParen
                then Some (Inl (''expected ')', got '' @ Value (current toks pos1)))
                else Some (Inr (expr, pos1 + 1)))
      else Some (Inl (''unexpected token: '' @ Value token)))"
| "parseFunctionCall 0 name toks pos = None"
| "parseFunctionCall (Suc n) name toks pos =
     then_parse (parseArguments n toks [] (pos + 1))
       (\<lambda>arguments pos1.
          if Type (current toks pos1) \<noteq> TokenRightParen
          then Some (Inl (''expected ')', got '' @ Value (current toks pos1)))
          else Some (Inr (FunctionCall name arguments, pos1 + 1)))"
| "parseArguments 0 toks arguments pos = None"
| "parseArguments (Suc n) toks arguments pos =
     (if Type (current toks pos) \<noteq> TokenRightParen
      then (if length arguments > 0 \<and> Type (current toks pos) \<noteq> TokenComma
            then Some (Inl (''expected ',' between arguments, got '' @ Value (current toks pos)))
            else then_parse
                   (parseExpression n toks (if length arguments > 0 then pos + 1 else pos))
                   (\<lambda>arg pos1. parseArguments n toks (arguments @ [arg]) pos1))
      else Some (Inr (arguments, pos)))"
  by pat_completeness auto
termination
  by (relation "measure (case_sum (case_sum fst (case_sum fst fst))
                                  (case_sum (case_sum fst fst) (case_sum fst fst)))") simp_all

subsection \<open>Statements\<close>

definition isTypeKeyword :: "TokenType \<Rightarrow> bool" where
  "isTypeKeyword ty =
     (ty = TokenNumberKeyword \<or> ty = TokenTextKeyword \<or> ty = TokenBooleanKeyword)"

definition parseVariableDeclaration :: "nat \<Rightarrow> Token list \<Rightarrow> nat \<Rightarrow> Statement parsed" where
  "parseVariableDeclaration n toks pos =
     (let typeToken = current toks pos in
      if Type (current toks (pos + 1)) \<noteq> TokenIdentifier
      then Some (Inl (''expected identifier after type, got '' @ Value (current toks (pos + 1))))
      else (let name = Value (current toks (pos + 1)) in
            if Type (current toks (pos + 2)) \<noteq> TokenAssign
            then Some (Inl (''expected '=' after variable name, got '' @
                            Value (current toks (pos + 2))))
            else then_parse (parseExpression n toks (pos + 3))
                   (\<lambda>v pos1.
                      case TypeFromString (Value typeToken) of
                        Inl err \<Rightarrow> Some (Inl err)
                      | Inr varType \<Rightarrow> Some (Inr (VariableDeclaration varType name v, pos1)))))"

definition parseAssignment :: "nat \<Rightarrow> Token list \<Rightarrow> nat \<Rightarrow> Statement parsed" where
  "parseAssignment n toks pos =
     (let name = Value (current toks pos) in
      if Type (current toks (pos + 1)) \<noteq> TokenAssign
      then Some (Inl (''expected '=' after variable name, got '' @ Value (current toks (pos + 1))))
      else then_parse (parseExpression n toks (pos + 2))
             (\<lambda>v pos1. Some (Inr (Assignment name v, pos1))))"

definition parsePrintStatement :: "nat \<Rightarrow> Token list \<Rightarrow> nat \<Rightarrow> Statement parsed" where
  "parsePrintStatement n toks pos =
     then_parse (parseExpression n toks (pos + 1))
       (\<lambda>v pos1. Some (Inr (PrintStatement v, pos1)))"

definition parseExpressionStatement :: "nat \<Rightarrow> Token list \<Rightarrow> nat \<Rightarrow> Statement parsed" where
  "parseExpressionStatement n toks pos =
     then_parse (parseExpression n toks pos)
       (\<lambda>expr pos1. Some (Inr (PrintStatement expr, pos1)))"

text \<open>
  The loop over the parameters in \<^verbatim>\<open>parseFunctionDeclaration\<close>. Each round takes a type
  keyword and a name, which are tokens of the list, so the loop ends.
\<close>

function parseParameters :: "Token list \<Rightarrow> Parameter list \<Rightarrow> nat \<Rightarrow> string + Parameter list \<times> nat" where
  "parseParameters toks parameters pos =
     (if Type (current toks pos) \<noteq> TokenRightParen
      then (if length parameters > 0 \<and> Type (current toks pos) \<noteq> TokenComma
            then Inl (''expected ',' between parameters, got '' @ Value (current toks pos))
            else (let pos1 = (if length parameters > 0 then pos + 1 else pos) in
                  if \<not> isTypeKeyword (Type (current toks pos1))
                  then Inl (''expected parameter type, got '' @ Value (current toks pos1))
                  else (case TypeFromString (Value (current toks pos1)) of
                          Inl err \<Rightarrow> Inl err
                        | Inr paramType \<Rightarrow>
                            if Type (current toks (pos1 + 1)) \<noteq> TokenIdentifier
                            then Inl (''expected parameter name, got '' @
                                      Value (current toks (pos1 + 1)))
                            else parseParameters toks
                                   (parameters @
                                    [Parameter (Value (current toks (pos1 + 1))) paramType])
                                   (pos1 + 2))))
      else Inr (parameters, pos))"
  by pat_completeness auto
termination
proof (relation "measure (\<lambda>(toks, parameters, pos). length toks - pos)")
  show "wf (measure (\<lambda>(toks, parameters, pos). length toks - pos))" by simp
next
  fix toks :: "Token list" and parameters :: "Parameter list" and pos pos1 :: nat
    and paramType :: types_Type
  assume a: "pos1 = (if 0 < length parameters then pos + 1 else pos)"
    "\<not> \<not> isTypeKeyword (Type (current toks pos1))"
  have "pos1 < length toks"
    using a(2) by (auto simp: current_def eofToken_def isTypeKeyword_def split: if_splits)
  moreover have "pos \<le> pos1" using a(1) by simp
  ultimately show "((toks, parameters @ [Parameter (Value (current toks (pos1 + 1))) paramType],
      pos1 + 2), toks, parameters, pos) \<in> measure (\<lambda>(toks, parameters, pos). length toks - pos)"
    by simp
qed

declare parseParameters.simps [simp del]

text \<open>
  \<open>parseBlock\<close> is the loop that reads the statements of a body up to \<^verbatim>\<open>end\<close> or the end
  of the input, and, for the then-branch of an \<^verbatim>\<open>if\<close> (\<open>stopAtElse\<close>), up to \<^verbatim>\<open>else\<close>.
\<close>

function (sequential) parseStatement :: "nat \<Rightarrow> Token list \<Rightarrow> nat \<Rightarrow> Statement parsed"
and parseBlock :: "nat \<Rightarrow> bool \<Rightarrow> Token list \<Rightarrow> Statement list \<Rightarrow> nat \<Rightarrow> (Statement list) parsed"
and parseIfStatement :: "nat \<Rightarrow> Token list \<Rightarrow> nat \<Rightarrow> Statement parsed"
and parseLoopStatement :: "nat \<Rightarrow> Token list \<Rightarrow> nat \<Rightarrow> Statement parsed"
and parseFunctionDeclaration :: "nat \<Rightarrow> Token list \<Rightarrow> nat \<Rightarrow> Statement parsed"
where
  "parseStatement 0 toks pos = None"
| "parseStatement (Suc n) toks pos =
     (let token = current toks pos in
      if isTypeKeyword (Type token) then parseVariableDeclaration n toks pos
      else if Type token = TokenIdentifier
      then (if Type (peek toks pos) = TokenAssign then parseAssignment n toks pos
            else parseExpressionStatement n toks pos)
      else if Type token = TokenIf then parseIfStatement n toks pos
      else if Type token = TokenLoop then parseLoopStatement n toks pos
      else if Type token = TokenFunction then parseFunctionDeclaration n toks pos
      else if Type token = TokenPrint then parsePrintStatement n toks pos
      else Some (Inl (''unexpected token at line '' @ show_int (Line token) @
                      '', column '' @ show_int (Column token) @ '': '' @ Value token)))"
| "parseBlock 0 stopAtElse toks body pos = None"
| "parseBlock (Suc n) stopAtElse toks body pos =
     (if \<not> (stopAtElse \<and> Type (current toks pos) = TokenElse) \<and>
         Type (current toks pos) \<noteq> TokenEnd \<and> Type (current toks pos) \<noteq> TokenEOF
      then then_parse (parseStatement n toks pos)
             (\<lambda>stmt pos1. parseBlock n stopAtElse toks (body @ [stmt]) pos1)
      else Some (Inr (body, pos)))"
| "parseIfStatement 0 toks pos = None"
| "parseIfStatement (Suc n) toks pos =
     then_parse (parseExpression n toks (pos + 1))
       (\<lambda>condition pos1.
          if Type (current toks pos1) \<noteq> TokenThen
          then Some (Inl (''expected 'then' after condition, got '' @ Value (current toks pos1)))
          else then_parse (parseBlock n True toks [] (pos1 + 1))
                 (\<lambda>thenBody pos2.
                    then_parse
                      (if Type (current toks pos2) = TokenElse
                       then parseBlock n False toks [] (pos2 + 1)
                       else Some (Inr ([], pos2)))
                      (\<lambda>elseBody pos3.
                         if Type (current toks pos3) \<noteq> TokenEnd
                         then Some (Inl (''expected 'end' after if statement, got '' @
                                         Value (current toks pos3)))
                         else Some (Inr (IfStatement condition thenBody elseBody, pos3 + 1)))))"
| "parseLoopStatement 0 toks pos = None"
| "parseLoopStatement (Suc n) toks pos =
     (if Type (current toks (pos + 1)) \<noteq> TokenIdentifier
      then Some (Inl (''expected identifier after 'loop', got '' @ Value (current toks (pos + 1))))
      else if Type (current toks (pos + 2)) \<noteq> TokenFrom
      then Some (Inl (''expected 'from' after loop variable, got '' @
                      Value (current toks (pos + 2))))
      else then_parse (parseExpression n toks (pos + 3))
             (\<lambda>fromExpr pos1.
                if Type (current toks pos1) \<noteq> TokenTo
                then Some (Inl (''expected 'to' after 'from' expression, got '' @
                                Value (current toks pos1)))
                else then_parse (parseExpression n toks (pos1 + 1))
                       (\<lambda>toExpr pos2.
                          then_parse (parseBlock n False toks [] pos2)
                            (\<lambda>body pos3.
                               if Type (current toks pos3) \<noteq> TokenEnd
                               then Some (Inl (''expected 'end' after loop body, got '' @
                                               Value (current toks pos3)))
                               else Some (Inr (LoopStatement (Value (current toks (pos + 1)))
                                                 fromExpr toExpr body, pos3 + 1))))))"
| "parseFunctionDeclaration 0 toks pos = None"
| "parseFunctionDeclaration (Suc n) toks pos =
     (if Type (current toks (pos + 1)) \<noteq> TokenIdentifier
      then Some (Inl (''expected function name after 'function', got '' @
                      Value (current toks (pos + 1))))
      else if Type (current toks (pos + 2)) \<noteq> TokenLeftParen
      then Some (Inl (''expected '(' after function name, got '' @
                      Value (current toks (pos + 2))))
      else then_parse (Some (parseParameters toks [] (pos + 3)))
             (\<lambda>parameters pos1.
                then_parse (parseBlock n False toks [] (pos1 + 1))
                  (\<lambda>body pos2.
                     if Type (current toks pos2) \<noteq> TokenEnd
                     then Some (Inl (''expected 'end' after function body, got '' @
                                     Value (current toks pos2)))
                     else Some (Inr (FunctionDeclaration (Value (current toks (pos + 1)))
                                       parameters VoidType body, pos2 + 1)))))"
  by pat_completeness auto
termination
  by (relation "measure (case_sum (case_sum fst fst) (case_sum fst (case_sum fst fst)))") simp_all

text \<open>The loop of \<^verbatim>\<open>Parse\<close>, and \<^verbatim>\<open>Parse\<close> itself on a new parser.\<close>

fun Parse_loop :: "nat \<Rightarrow> Token list \<Rightarrow> Statement list \<Rightarrow> nat \<Rightarrow> (Statement list) parsed" where
  "Parse_loop 0 toks program pos = None"
| "Parse_loop (Suc n) toks program pos =
     (if Type (current toks pos) \<noteq> TokenEOF
      then then_parse (parseStatement n toks pos)
             (\<lambda>stmt pos1. Parse_loop n toks (program @ [stmt]) pos1)
      else Some (Inr (program, pos)))"

definition Parse :: "nat \<Rightarrow> Token list \<Rightarrow> (string + Statement list) option" where
  "Parse n toks =
     (case Parse_loop n toks [] 0 of
        None \<Rightarrow> None
      | Some (Inl err) \<Rightarrow> Some (Inl err)
      | Some (Inr (program, pos)) \<Rightarrow> Some (Inr program))"

section \<open>Rules for running the definitions on a concrete program\<close>

lemma on_success_simps [simp]:
  "on_success None rest = None"
  "on_success (Some (Inl err, i)) rest = Some (Inl err, i)"
  "on_success (Some (Inr v, i)) rest = rest v i"
  by (simp_all add: on_success_def)

lemma on_success_cong [cong]: "m = m' \<Longrightarrow> on_success m rest = on_success m' rest"
  by simp

lemma restore_environment_simps [simp]:
  "restore_environment None = None"
  "restore_environment (Some (Inl err, i)) =
     Some (Inl err, i\<lparr>environment := tl (environment i)\<rparr>)"
  "restore_environment (Some (Inr u, i)) =
     Some (Inr VoidValue, i\<lparr>environment := tl (environment i)\<rparr>)"
  by (simp_all add: restore_environment_def)

lemma restore_environment_cong [cong]:
  "m = m' \<Longrightarrow> restore_environment m = restore_environment m'"
  by simp

lemma then_parse_simps [simp]:
  "then_parse None rest = None"
  "then_parse (Some (Inl err)) rest = Some (Inl err)"
  "then_parse (Some (Inr (x, pos))) rest = rest x pos"
  by (simp_all add: then_parse_def)

lemma then_parse_cong [cong]: "m = m' \<Longrightarrow> then_parse m rest = then_parse m' rest"
  by simp

text \<open>
  Up to \<open>2^53\<close> every integer is a \<^verbatim>\<open>float64\<close>, so the increment is exact; from there on
  it is not.
\<close>

lemma bit_length_le: "m < 2 ^ k \<Longrightarrow> bit_length m \<le> k"
proof (induction k arbitrary: m)
  case 0
  then show ?case by (simp add: bit_length.simps)
next
  case (Suc k)
  then have "m div 2 < 2 ^ k" by auto
  from Suc.IH[OF this] show ?case by (subst bit_length.simps) simp
qed

lemma bit_length_eq: "2 ^ k \<le> m \<Longrightarrow> m < 2 ^ Suc k \<Longrightarrow> bit_length m = Suc k"
proof (induction k arbitrary: m)
  case 0
  then have "m = 1" by simp
  then show ?case by (simp add: bit_length.simps[of "Suc 0"] bit_length.simps[of 0])
next
  case (Suc k)
  then have "2 ^ k \<le> m div 2" "m div 2 < 2 ^ Suc k" "m \<noteq> 0" by auto
  with Suc.IH[of "m div 2"] show ?case by (subst bit_length.simps) simp
qed

lemma float64_of_int_exact:
  assumes "\<bar>k\<bar> \<le> 2 ^ 53"
  shows "float64_of_int k = k"
proof (cases "\<bar>k\<bar> = 2 ^ 53")
  case True
  then have m: "nat \<bar>k\<bar> = 2 ^ 53" by (simp add: nat_eq_iff)
  have b: "bit_length (nat \<bar>k\<bar>) - 53 = 1"
    using bit_length_eq[of 53 "nat \<bar>k\<bar>"] m by simp
  have "sgn k * 2 ^ 53 = k" using True by (cases "k < 0") (auto simp: sgn_if)
  then show ?thesis
    unfolding float64_of_int_def Let_def b by (simp add: m)
next
  case False
  with assms have "nat \<bar>k\<bar> < 2 ^ 53" by (simp add: nat_less_iff)
  then have "bit_length (nat \<bar>k\<bar>) - 53 = 0" using bit_length_le[of "nat \<bar>k\<bar>" 53] by simp
  then show ?thesis
    by (simp add: float64_of_int_def Let_def sgn_if)
qed

lemma increment_exact:
  assumes "- (2 ^ 53) \<le> k" and "k < 2 ^ 53"
  shows "increment (of_int k) = of_int (k + 1)"
proof -
  have "\<bar>k + 1\<bar> \<le> 2 ^ 53" using assms by simp
  then show ?thesis by (simp add: increment_def float64_of_int_exact)
qed

lemma increment_numeral [simp]:
  "(numeral w :: int) < 9007199254740992 \<Longrightarrow> increment (numeral w) = numeral w + 1"
  using increment_exact[of "numeral w"] by simp

lemma increment_0 [simp]: "increment 0 = 1"
  using increment_exact[of 0] by simp

lemma increment_1 [simp]: "increment 1 = 2"
  using increment_exact[of 1] by simp

lemma float64_of_int_ties:
  "float64_of_int 9007199254740993 = 9007199254740992"
  "float64_of_int (- 9007199254740993) = - 9007199254740992"
  "float64_of_int 9007199254740995 = 9007199254740996"
  "float64_of_int 9007199254740997 = 9007199254740996"
  by (simp_all add: float64_of_int_def Let_def bit_length_eq[of 53])

text \<open>A bound written as a numeral is a successor.\<close>

lemma evaluator_numeral:
  "executeStatement (numeral k) s i = executeStatement (Suc (pred_numeral k)) s i"
  "executeBody (numeral k) b i = executeBody (Suc (pred_numeral k)) b i"
  "loop_iterations (numeral k) x j t b i = loop_iterations (Suc (pred_numeral k)) x j t b i"
  "evaluateExpression (numeral k) e i = evaluateExpression (Suc (pred_numeral k)) e i"
  "evaluateArguments (numeral k) es as i = evaluateArguments (Suc (pred_numeral k)) es as i"
  by (simp_all only: numeral_eq_Suc)

lemma parser_numeral:
  "parseExpression (numeral k) toks pos = parseExpression (Suc (pred_numeral k)) toks pos"
  "parseBinary (numeral k) lvl toks pos = parseBinary (Suc (pred_numeral k)) lvl toks pos"
  "parseBinary_loop (numeral k) lvl toks l pos =
     parseBinary_loop (Suc (pred_numeral k)) lvl toks l pos"
  "parseUnary (numeral k) toks pos = parseUnary (Suc (pred_numeral k)) toks pos"
  "parsePrimary (numeral k) toks pos = parsePrimary (Suc (pred_numeral k)) toks pos"
  "parseFunctionCall (numeral k) name toks pos =
     parseFunctionCall (Suc (pred_numeral k)) name toks pos"
  "parseArguments (numeral k) toks as pos = parseArguments (Suc (pred_numeral k)) toks as pos"
  "parseStatement (numeral k) toks pos = parseStatement (Suc (pred_numeral k)) toks pos"
  "parseBlock (numeral k) b toks body pos = parseBlock (Suc (pred_numeral k)) b toks body pos"
  "parseIfStatement (numeral k) toks pos = parseIfStatement (Suc (pred_numeral k)) toks pos"
  "parseLoopStatement (numeral k) toks pos = parseLoopStatement (Suc (pred_numeral k)) toks pos"
  "parseFunctionDeclaration (numeral k) toks pos =
     parseFunctionDeclaration (Suc (pred_numeral k)) toks pos"
  "Parse_loop (numeral k) toks p pos = Parse_loop (Suc (pred_numeral k)) toks p pos"
  by (simp_all only: numeral_eq_Suc)

lemmas run_parser =
  parser_numeral Parse_def current_def peek_def isTypeKeyword_def
  parseVariableDeclaration_def parseAssignment_def parsePrintStatement_def
  parseExpressionStatement_def parseParameters.simps TypeFromString_def

lemmas run_evaluator =
  evaluator_numeral Interpret_def NewInterpreter_def NewEnvironment_def NewFrame_def
  evaluateLiteral_def applyBinary_def applyUnary_def

section \<open>The scanner's claims\<close>

text \<open>
  Claim C3, as stated: a source with a character that is not a digit, a double quote, a
  letter or one of \<^verbatim>\<open>+ - * / = < > ! ( ) ,\<close> makes the scanner stop with
  \<^verbatim>\<open>unexpected character\<close>; the semicolon is given as an example. The scanner has a case
  for each of \<^verbatim>\<open>{ } ; :\<close>, and the source \<^verbatim>\<open>;\<close> is scanned into a semicolon token and the
  end-of-input token, with no diagnostic.
\<close>

theorem C3_semicolon_is_a_token:
  "Tokenize (NewLexer '';'') =
     Inr [\<lparr>Type = TokenSemicolon, Value = '';'', Line = 1, Column = 1, Literal = PNil\<rparr>,
          \<lparr>Type = TokenEOF, Value = [], Line = 1, Column = 2, Literal = PNil\<rparr>]"
  by code_simp

text \<open>
  Claim C3, amended: when the scanner, about to read a token (it is inside the input and
  has skipped the whitespace in front of it), is at a character that is not a digit, a
  double quote, a letter or one of \<^verbatim>\<open>+ - * / = < > ! ( ) { } , ; :\<close>, then \<^verbatim>\<open>Tokenize\<close>
  returns the diagnostic \<^verbatim>\<open>unexpected character: X\<close> with the scanner's line and column
  at that character, and no token list.
\<close>

theorem C3_unexpected_character:
  assumes "position l < length (input l)"
    and "position (skipWhitespace l) < length (input l)"
    and "c = currentChar (skipWhitespace l)"
    and "\<not> isDigit c" and "\<not> isLetter c"
    and "c \<notin> set (CHR 0x22 # ''+-*/=<>!(){},;:'')"
  shows "Tokenize l =
           Inl (LexicalError (line (skipWhitespace l)) (column (skipWhitespace l))
                  (''unexpected character: '' @ fmt_c c))"
proof -
  have inp: "input (skipWhitespace l) = input l" using skipWhitespace_mono[of l] by simp
  have nt: "fst (nextToken (skipWhitespace l)) =
      \<lparr>Type = TokenError, Value = ''unexpected character: '' @ fmt_c c,
       Line = line (skipWhitespace l), Column = column (skipWhitespace l), Literal = PNil\<rparr>"
    using assms(3-6) by (simp add: nextToken_def Let_def)
  have "Tokenize_loop l =
      Inl (LexicalError (line (skipWhitespace l)) (column (skipWhitespace l))
             (''unexpected character: '' @ fmt_c c))"
    using assms(1,2) inp nt by (subst Tokenize_loop.simps) (simp add: Let_def)
  then show ?thesis by (simp add: Tokenize_def)
qed

text \<open>Claim C3, amended, on the source of a space and \<^verbatim>\<open>#\<close>.\<close>

theorem C3_unexpected_character_witness:
  "Tokenize (NewLexer '' #'') = Inl (LexicalError 1 3 ''unexpected character: #'')"
proof -
  have sw: "skipWhitespace \<lparr>input = '' #'', position = 0, line = 1, column = 1, tokens = []\<rparr> =
      \<lparr>input = '' #'', position = 1, line = 1, column = 3, tokens = []\<rparr>"
    by code_simp
  show ?thesis
    using C3_unexpected_character
      [of "\<lparr>input = '' #'', position = 0, line = 1, column = 1, tokens = []\<rparr>" "CHR ''#''"]
    by (simp add: sw NewLexer_def currentChar_def isDigit_def isLetter_def fmt_c_def)
qed

text \<open>The braces and the colon are scanned into tokens as the semicolon is.\<close>

lemma braces_and_colon_are_tokens:
  "Tokenize (NewLexer ''{'') =
     Inr [\<lparr>Type = TokenLeftBrace, Value = ''{'', Line = 1, Column = 1, Literal = PNil\<rparr>,
          \<lparr>Type = TokenEOF, Value = [], Line = 1, Column = 2, Literal = PNil\<rparr>]"
  "Tokenize (NewLexer ''}'') =
     Inr [\<lparr>Type = TokenRightBrace, Value = ''}'', Line = 1, Column = 1, Literal = PNil\<rparr>,
          \<lparr>Type = TokenEOF, Value = [], Line = 1, Column = 2, Literal = PNil\<rparr>]"
  "Tokenize (NewLexer '':'') =
     Inr [\<lparr>Type = TokenColon, Value = '':'', Line = 1, Column = 1, Literal = PNil\<rparr>,
          \<lparr>Type = TokenEOF, Value = [], Line = 1, Column = 2, Literal = PNil\<rparr>]"
  by code_simp+

text \<open>
  Claim C5 says that a token's column is the 1-based column of its first character: 3
  for the identifier after two spaces, 1 for the first token after a newline.
  \<^verbatim>\<open>skipWhitespace\<close> adds one to the column for a space and then calls \<^verbatim>\<open>advance\<close>, which
  adds one again, and after a newline it sets the column to 1 before \<^verbatim>\<open>advance\<close> makes it
  2: the scanner gives column 5 to the identifier after two spaces and column 2 to the
  first token of the second line.
\<close>

theorem C5_columns_count_whitespace_twice:
  "Tokenize (NewLexer ''  x'') =
     Inr [\<lparr>Type = TokenIdentifier, Value = ''x'', Line = 1, Column = 5, Literal = PString ''x''\<rparr>,
          \<lparr>Type = TokenEOF, Value = [], Line = 1, Column = 6, Literal = PNil\<rparr>] \<and>
   Tokenize (NewLexer ''a\<newline>b'') =
     Inr [\<lparr>Type = TokenIdentifier, Value = ''a'', Line = 1, Column = 1, Literal = PString ''a''\<rparr>,
          \<lparr>Type = TokenIdentifier, Value = ''b'', Line = 2, Column = 2, Literal = PString ''b''\<rparr>,
          \<lparr>Type = TokenEOF, Value = [], Line = 2, Column = 3, Literal = PNil\<rparr>]"
  by code_simp

text \<open>
  Claim C4 says that a number lexeme with more than one period is scanned as a number
  token and that evaluating its literal fails with \<^verbatim>\<open>invalid number\<close>. The scanner does
  make one number token of \<^verbatim>\<open>1.2.3\<close>; \<^verbatim>\<open>evaluateLiteral\<close> reads it with \<^verbatim>\<open>Sscanf\<close>, which
  takes the prefix \<^verbatim>\<open>1.2\<close> and reports no error, so the literal evaluates to the number
  1.2.
\<close>

lemma sscanf_1_2_3: "sscanf_f ''1.2.3'' = Some (6 / 5)"
  by (simp add: sscanf_f_def isDigit_def digits_value_def)

theorem C4_two_periods_scan_as_a_prefix:
  "Tokenize (NewLexer ''1.2.3'') =
     Inr [\<lparr>Type = TokenNumber, Value = ''1.2.3'', Line = 1, Column = 1,
            Literal = PString ''1.2.3''\<rparr>,
          \<lparr>Type = TokenEOF, Value = [], Line = 1, Column = 6, Literal = PNil\<rparr>] \<and>
   evaluateLiteral (PString ''1.2.3'') NumberType = Inr (NumberValue (6 / 5))"
proof
  show "Tokenize (NewLexer ''1.2.3'') =
     Inr [\<lparr>Type = TokenNumber, Value = ''1.2.3'', Line = 1, Column = 1,
            Literal = PString ''1.2.3''\<rparr>,
          \<lparr>Type = TokenEOF, Value = [], Line = 1, Column = 6, Literal = PNil\<rparr>]"
    by code_simp
  show "evaluateLiteral (PString ''1.2.3'') NumberType = Inr (NumberValue (6 / 5))"
    by (simp add: evaluateLiteral_def sscanf_1_2_3)
qed

section \<open>The pipeline on the end-to-end scenarios\<close>

text \<open>
  \<^verbatim>\<open>main\<close> without its banners: scan, parse and interpret the source with a new lexer,
  parser and interpreter, stop at the first stage that fails, and keep the lines that the
  program itself has printed.
\<close>

datatype run_result =
  Lexical_error lex_error | Parse_error string | Runtime_error string | Executed

definition compile_and_run :: "nat \<Rightarrow> string \<Rightarrow> (run_result \<times> string list) option" where
  "compile_and_run n source =
     (case Tokenize (NewLexer source) of
        Inl err \<Rightarrow> Some (Lexical_error err, [])
      | Inr toks \<Rightarrow>
          (case Parse n toks of
             None \<Rightarrow> None
           | Some (Inl err) \<Rightarrow> Some (Parse_error err, [])
           | Some (Inr program) \<Rightarrow>
               (case Interpret n program NewInterpreter of
                  None \<Rightarrow> None
                | Some (Inl err, i) \<Rightarrow> Some (Runtime_error err, stdout i)
                | Some (Inr u, i) \<Rightarrow> Some (Executed, stdout i))))"

definition scenario5_source :: string where
  "scenario5_source =
     ''function greet(text n)\<newline> print \"Hi \" + n\<newline>end\<newline>greet(\"Ada\")''"

definition scenario5_program :: "Statement list" where
  "scenario5_program =
     [FunctionDeclaration ''greet'' [Parameter ''n'' TextType] VoidType
        [PrintStatement
           (BinaryExpression (LiteralNode (PString ''Hi '') TextType) ''+'' (Identifier ''n''))],
      PrintStatement (FunctionCall ''greet'' [LiteralNode (PString ''Ada'') TextType])]"

definition scenario6_source :: string where
  "scenario6_source =
     ''number n = 5\<newline>number r = 1\<newline>loop i from 1 to n\<newline> r = r * i\<newline>end\<newline>print r''"

definition scenario6_program :: "Statement list" where
  "scenario6_program =
     [VariableDeclaration NumberType ''n'' (LiteralNode (PString ''5'') NumberType),
      VariableDeclaration NumberType ''r'' (LiteralNode (PString ''1'') NumberType),
      LoopStatement ''i'' (LiteralNode (PString ''1'') NumberType) (Identifier ''n'')
        [Assignment ''r'' (BinaryExpression (Identifier ''r'') ''*'' (Identifier ''i''))],
      PrintStatement (Identifier ''r'')]"

lemma sscanf_1: "sscanf_f ''1'' = Some 1"
  by (simp add: sscanf_f_def isDigit_def digits_value_def)

lemma sscanf_5: "sscanf_f ''5'' = Some 5"
  by (simp add: sscanf_f_def isDigit_def digits_value_def)

lemma sscanf_0: "sscanf_f ''0'' = Some 0"
  by (simp add: sscanf_f_def isDigit_def digits_value_def)

lemma sscanf_3: "sscanf_f ''3'' = Some 3"
  by (simp add: sscanf_f_def isDigit_def digits_value_def)

lemma format_g_small:
  "format_g 1 = ''1''" "format_g 2 = ''2''" "format_g 3 = ''3''" "format_g 120 = ''120''"
  by (simp_all add: format_g_def show_nat.simps digit_char_def)

definition scenario5_tokens :: "Token list" where
  "scenario5_tokens =
     [\<lparr>Type = TokenFunction, Value = ''function'', Line = 1, Column = 1,
         Literal = PString ''function''\<rparr>,
      \<lparr>Type = TokenIdentifier, Value = ''greet'', Line = 1, Column = 11,
         Literal = PString ''greet''\<rparr>,
      \<lparr>Type = TokenLeftParen, Value = ''('', Line = 1, Column = 16, Literal = PNil\<rparr>,
      \<lparr>Type = TokenTextKeyword, Value = ''text'', Line = 1, Column = 17,
         Literal = PString ''text''\<rparr>,
      \<lparr>Type = TokenIdentifier, Value = ''n'', Line = 1, Column = 23, Literal = PString ''n''\<rparr>,
      \<lparr>Type = TokenRightParen, Value = '')'', Line = 1, Column = 24, Literal = PNil\<rparr>,
      \<lparr>Type = TokenPrint, Value = ''print'', Line = 2, Column = 4,
         Literal = PString ''print''\<rparr>,
      \<lparr>Type = TokenText, Value = ''Hi '', Line = 2, Column = 11, Literal = PString ''Hi ''\<rparr>,
      \<lparr>Type = TokenPlus, Value = ''+'', Line = 2, Column = 18, Literal = PNil\<rparr>,
      \<lparr>Type = TokenIdentifier, Value = ''n'', Line = 2, Column = 21, Literal = PString ''n''\<rparr>,
      \<lparr>Type = TokenEnd, Value = ''end'', Line = 3, Column = 2, Literal = PString ''end''\<rparr>,
      \<lparr>Type = TokenIdentifier, Value = ''greet'', Line = 4, Column = 2,
         Literal = PString ''greet''\<rparr>,
      \<lparr>Type = TokenLeftParen, Value = ''('', Line = 4, Column = 7, Literal = PNil\<rparr>,
      \<lparr>Type = TokenText, Value = ''Ada'', Line = 4, Column = 8, Literal = PString ''Ada''\<rparr>,
      \<lparr>Type = TokenRightParen, Value = '')'', Line = 4, Column = 13, Literal = PNil\<rparr>,
      \<lparr>Type = TokenEOF, Value = [], Line = 4, Column = 14, Literal = PNil\<rparr>]"

lemma scenario5_scanned: "Tokenize (NewLexer scenario5_source) = Inr scenario5_tokens"
  by code_simp

lemma scenario5_parsed: "Parse 40 scenario5_tokens = Some (Inr scenario5_program)"
  by (simp add: run_parser scenario5_tokens_def scenario5_program_def del: Suc_numeral)

lemma scenario5_interpreted:
  "\<exists>i. Interpret 40 scenario5_program NewInterpreter = Some (Inr (), i) \<and>
        stdout i = [''Hi Ada'', ''void'']"
  by (simp add: run_evaluator scenario5_program_def del: Suc_numeral)

lemma scenario5_output:
  "compile_and_run 40 scenario5_source = Some (Executed, [''Hi Ada'', ''void''])"
  using scenario5_interpreted by (auto simp: compile_and_run_def scenario5_scanned scenario5_parsed)

definition scenario6_tokens :: "Token list" where
  "scenario6_tokens =
     [\<lparr>Type = TokenNumberKeyword, Value = ''number'', Line = 1, Column = 1,
         Literal = PString ''number''\<rparr>,
      \<lparr>Type = TokenIdentifier, Value = ''n'', Line = 1, Column = 9, Literal = PString ''n''\<rparr>,
      \<lparr>Type = TokenAssign, Value = ''='', Line = 1, Column = 12, Literal = PNil\<rparr>,
      \<lparr>Type = TokenNumber, Value = ''5'', Line = 1, Column = 15, Literal = PString ''5''\<rparr>,
      \<lparr>Type = TokenNumberKeyword, Value = ''number'', Line = 2, Column = 2,
         Literal = PString ''number''\<rparr>,
      \<lparr>Type = TokenIdentifier, Value = ''r'', Line = 2, Column = 10, Literal = PString ''r''\<rparr>,
      \<lparr>Type = TokenAssign, Value = ''='', Line = 2, Column = 13, Literal = PNil\<rparr>,
      \<lparr>Type = TokenNumber, Value = ''1'', Line = 2, Column = 16, Literal = PString ''1''\<rparr>,
      \<lparr>Type = TokenLoop, Value = ''loop'', Line = 3, Column = 2, Literal = PString ''loop''\<rparr>,
      \<lparr>Type = TokenIdentifier, Value = ''i'', Line = 3, Column = 8, Literal = PString ''i''\<rparr>,
      \<lparr>Type = TokenFrom, Value = ''from'', Line = 3, Column = 11, Literal = PString ''from''\<rparr>,
      \<lparr>Type = TokenNumber, Value = ''1'', Line = 3, Column = 17, Literal = PString ''1''\<rparr>,
      \<lparr>Type = TokenTo, Value = ''to'', Line = 3, Column = 20, Literal = PString ''to''\<rparr>,
      \<lparr>Type = TokenIdentifier, Value = ''n'', Line = 3, Column = 24, Literal = PString ''n''\<rparr>,
      \<lparr>Type = TokenIdentifier, Value = ''r'', Line = 4, Column = 4, Literal = PString ''r''\<rparr>,
      \<lparr>Type = TokenAssign, Value = ''='', Line = 4, Column = 7, Literal = PNil\<rparr>,
      \<lparr>Type = TokenIdentifier, Value = ''r'', Line = 4, Column = 10, Literal = PString ''r''\<rparr>,
      \<lparr>Type = TokenMultiply, Value = ''*'', Line = 4, Column = 13, Literal = PNil\<rparr>,
      \<lparr>Type = TokenIdentifier, Value = ''i'', Line = 4, Column = 16, Literal = PString ''i''\<rparr>,
      \<lparr>Type = TokenEnd, Value = ''end'', Line = 5, Column = 2, Literal = PString ''end''\<rparr>,
      \<lparr>Type = TokenPrint, Value = ''print'', Line = 6, Column = 2,
         Literal = PString ''print''\<rparr>,
      \<lparr>Type = TokenIdentifier, Value = ''r'', Line = 6, Column = 9, Literal = PString ''r''\<rparr>,
      \<lparr>Type = TokenEOF, Value = [], Line = 6, Column = 10, Literal = PNil\<rparr>]"

lemma scenario6_scanned: "Tokenize (NewLexer scenario6_source) = Inr scenario6_tokens"
  by code_simp

lemma scenario6_parsed: "Parse 40 scenario6_tokens = Some (Inr scenario6_program)"
  by (simp add: run_parser scenario6_tokens_def scenario6_program_def del: Suc_numeral)

lemma scenario6_interpreted:
  "\<exists>i. Interpret 40 scenario6_program NewInterpreter = Some (Inr (), i) \<and> stdout i = [''1'']"
  by (simp add: run_evaluator scenario6_program_def sscanf_1 sscanf_5 format_g_small
      del: Suc_numeral)

text \<open>
  Claim C1 says that an assignment to a variable of an outer frame overwrites the binding
  in the frame that holds it, so that scenario 6 (the factorial of 5 computed in a loop)
  prints 120. \<^verbatim>\<open>executeAssignment\<close> looks the name up through the chain and then calls
  \<^verbatim>\<open>SetVariable\<close> on the current environment, which is the loop's frame: the products are
  kept in a binding of \<^verbatim>\<open>r\<close> that is dropped with the frame, the global \<^verbatim>\<open>r\<close> is still 1
  after the loop, and the program prints 1.
\<close>

theorem C1_factorial_scenario_prints_1:
  "compile_and_run 40 scenario6_source = Some (Executed, [''1''])"
  using scenario6_interpreted by (auto simp: compile_and_run_def scenario6_scanned scenario6_parsed)

text \<open>
  Claim C2, as stated: scenario 5 (a procedure \<^verbatim>\<open>greet\<close> and the bare call
  \<^verbatim>\<open>greet("Ada")\<close>) writes the line \<^verbatim>\<open>Hi Ada\<close> and nothing else. It does not: the output is not
  that single line.
\<close>

theorem C2_output_is_not_one_line:
  "compile_and_run 40 scenario5_source \<noteq> Some (Executed, [''Hi Ada''])"
  by (simp add: scenario5_output)

text \<open>
  Claim C2, amended: scenario 5 runs without error and writes two lines, \<^verbatim>\<open>Hi Ada\<close> and
  then \<^verbatim>\<open>void\<close>. The bare call is parsed as a \<^verbatim>\<open>PrintStatement\<close> of the call, the call
  prints \<^verbatim>\<open>Hi Ada\<close> and evaluates to \<^verbatim>\<open>VoidValue\<close>, and the print statement then writes the
  display of that value.
\<close>

theorem C2_scenario_prints_void_too:
  "compile_and_run 40 scenario5_source = Some (Executed, [''Hi Ada'', ''void''])"
  by (rule scenario5_output)

section \<open>The evaluator's claims\<close>

lemma on_success_eq_Some_Inr:
  "on_success m rest = Some (Inr v, i') \<longleftrightarrow>
     (\<exists>x i1. m = Some (Inr x, i1) \<and> rest x i1 = Some (Inr v, i'))"
  by (auto simp: on_success_def split: option.splits sum.splits prod.splits)

lemma restore_environment_eq_Some_Inr:
  "restore_environment m = Some (Inr v, i') \<longleftrightarrow>
     (\<exists>u i3. m = Some (Inr u, i3) \<and> v = VoidValue \<and>
             i' = i3\<lparr>environment := tl (environment i3)\<rparr>)"
  by (auto simp: restore_environment_def split: option.splits sum.splits prod.splits)

lemma SetVariable_twice:
  "SetVariable (SetVariable env x v) x w = SetVariable env x w"
  by (cases env) simp_all

text \<open>
  Claim C7: in a binary expression, \<^verbatim>\<open>and\<close> and \<^verbatim>\<open>or\<close> included, the left operand is
  evaluated, then the right operand in the interpreter the left one leaves, and only
  then the operator is applied to the two values. Whatever the left value is, an error
  of the right operand is the result of the expression, and when both operands have a
  value the result is the operator applied to them.
\<close>

theorem C7_both_operands_are_evaluated:
  assumes "evaluateExpression n l i = Some (Inr left, i1)"
  shows "(evaluateExpression n r i1 = Some (Inl err, i2) \<longrightarrow>
            evaluateExpression (Suc n) (BinaryExpression l operator r) i = Some (Inl err, i2)) \<and>
         (evaluateExpression n r i1 = Some (Inr right, i2) \<longrightarrow>
            evaluateExpression (Suc n) (BinaryExpression l operator r) i =
              Some (applyBinary operator left right, i2))"
  using assms by simp

text \<open>
  Claim C7 on \<^verbatim>\<open>false and (1 / 0 == 1)\<close>: the left operand is false, and the division by
  zero of the right operand is the result.
\<close>

theorem C7_both_operands_are_evaluated_witness:
  "evaluateExpression (Suc 3)
     (BinaryExpression (LiteralNode (PBool False) BooleanType) ''and''
        (BinaryExpression
           (BinaryExpression (LiteralNode (PString ''1'') NumberType) ''/''
              (LiteralNode (PString ''0'') NumberType))
           ''=='' (LiteralNode (PString ''1'') NumberType)))
     NewInterpreter = Some (Inl ''division by zero'', NewInterpreter)"
proof -
  have l: "evaluateExpression 3 (LiteralNode (PBool False) BooleanType) NewInterpreter =
      Some (Inr (BooleanValue False), NewInterpreter)"
    by (simp add: evaluator_numeral evaluateLiteral_def del: Suc_numeral)
  have r: "evaluateExpression 3
      (BinaryExpression
         (BinaryExpression (LiteralNode (PString ''1'') NumberType) ''/''
            (LiteralNode (PString ''0'') NumberType))
         ''=='' (LiteralNode (PString ''1'') NumberType)) NewInterpreter =
      Some (Inl ''division by zero'', NewInterpreter)"
    by (simp add: evaluator_numeral evaluateLiteral_def applyBinary_def sscanf_0 sscanf_1
        del: Suc_numeral)
  show ?thesis
    by (rule C7_both_operands_are_evaluated[OF l, THEN conjunct1, rule_format, OF r])
qed



section \<open>The evaluator does not depend on the bound\<close>

text \<open>
  A call that returns within one bound on the depth of its calls returns the same result,
  and leaves the same interpreter, within every larger bound.
\<close>

lemma on_success_SomeE:
  assumes "on_success m rest = Some r"
  obtains (failure) err i where "m = Some (Inl err, i)" "r = (Inl err, i)"
  | (success) x i where "m = Some (Inr x, i)" "rest x i = Some r"
  using assms by (auto simp: on_success_def split: option.splits sum.splits prod.splits)

lemma restore_environment_SomeE:
  assumes "restore_environment m = Some r"
  obtains (failure) err i where "m = Some (Inl err, i)"
      "r = (Inl err, i\<lparr>environment := tl (environment i)\<rparr>)"
  | (success) u i where "m = Some (Inr u, i)"
      "r = (Inr VoidValue, i\<lparr>environment := tl (environment i)\<rparr>)"
  using assms by (auto simp: restore_environment_def split: option.splits sum.splits prod.splits)

lemma executeStatement_mono_step:
  assumes E: "\<And>e i r. evaluateExpression n e i = Some r \<Longrightarrow> evaluateExpression m e i = Some r"
    and B: "\<And>b i r. executeBody n b i = Some r \<Longrightarrow> executeBody m b i = Some r"
    and L: "\<And>x j t b i r. loop_iterations n x j t b i = Some r \<Longrightarrow>
              loop_iterations m x j t b i = Some r"
    and s: "executeStatement (Suc n) s i = Some r"
  shows "executeStatement (Suc m) s i = Some r"
  using s
  by (cases s)
    (auto elim!: on_success_SomeE restore_environment_SomeE dest!: E B L
      split: Value.splits option.splits prod.splits if_splits)


lemma executeBody_mono_step:
  assumes S: "\<And>s i r. executeStatement n s i = Some r \<Longrightarrow> executeStatement m s i = Some r"
    and B: "\<And>b i r. executeBody n b i = Some r \<Longrightarrow> executeBody m b i = Some r"
    and s: "executeBody (Suc n) body i = Some r"
  shows "executeBody (Suc m) body i = Some r"
  using s by (cases body) (auto elim!: on_success_SomeE dest!: S B)

lemma loop_iterations_mono_step:
  assumes B: "\<And>b i r. executeBody n b i = Some r \<Longrightarrow> executeBody m b i = Some r"
    and L: "\<And>x j t b i r. loop_iterations n x j t b i = Some r \<Longrightarrow>
              loop_iterations m x j t b i = Some r"
    and s: "loop_iterations (Suc n) x j t body i = Some r"
  shows "loop_iterations (Suc m) x j t body i = Some r"
  using s by (auto elim!: on_success_SomeE dest!: B L split: if_splits)

lemma evaluateExpression_mono_step:
  assumes E: "\<And>e i r. evaluateExpression n e i = Some r \<Longrightarrow> evaluateExpression m e i = Some r"
    and A: "\<And>es as i r. evaluateArguments n es as i = Some r \<Longrightarrow>
              evaluateArguments m es as i = Some r"
    and B: "\<And>b i r. executeBody n b i = Some r \<Longrightarrow> executeBody m b i = Some r"
    and s: "evaluateExpression (Suc n) e i = Some r"
  shows "evaluateExpression (Suc m) e i = Some r"
  using s
  by (cases e)
    (auto elim!: on_success_SomeE restore_environment_SomeE dest!: E A B
      split: option.splits prod.splits sum.splits if_splits)

lemma evaluateArguments_mono_step:
  assumes E: "\<And>e i r. evaluateExpression n e i = Some r \<Longrightarrow> evaluateExpression m e i = Some r"
    and A: "\<And>es as i r. evaluateArguments n es as i = Some r \<Longrightarrow>
              evaluateArguments m es as i = Some r"
    and s: "evaluateArguments (Suc n) es as i = Some r"
  shows "evaluateArguments (Suc m) es as i = Some r"
  using s by (cases es) (auto elim!: on_success_SomeE dest!: E A)

text \<open>A call that returns within a bound returns the same within any larger bound.\<close>

lemma evaluator_mono:
  "n \<le> m \<Longrightarrow>
   (\<forall>s i r. executeStatement n s i = Some r \<longrightarrow> executeStatement m s i = Some r) \<and>
   (\<forall>b i r. executeBody n b i = Some r \<longrightarrow> executeBody m b i = Some r) \<and>
   (\<forall>x j t b i r. loop_iterations n x j t b i = Some r \<longrightarrow>
      loop_iterations m x j t b i = Some r) \<and>
   (\<forall>e i r. evaluateExpression n e i = Some r \<longrightarrow> evaluateExpression m e i = Some r) \<and>
   (\<forall>es as i r. evaluateArguments n es as i = Some r \<longrightarrow>
      evaluateArguments m es as i = Some r)"
proof (induction n arbitrary: m)
  case 0
  show ?case by simp
next
  case (Suc n)
  then obtain m' where m: "m = Suc m'" and le: "n \<le> m'" by (cases m) auto
  note IH = Suc.IH[OF le]
  have S: "\<And>s i r. executeStatement n s i = Some r \<Longrightarrow> executeStatement m' s i = Some r"
    and B: "\<And>b i r. executeBody n b i = Some r \<Longrightarrow> executeBody m' b i = Some r"
    and L: "\<And>x j t b i r. loop_iterations n x j t b i = Some r \<Longrightarrow>
              loop_iterations m' x j t b i = Some r"
    and E: "\<And>e i r. evaluateExpression n e i = Some r \<Longrightarrow> evaluateExpression m' e i = Some r"
    and A: "\<And>es as i r. evaluateArguments n es as i = Some r \<Longrightarrow>
              evaluateArguments m' es as i = Some r"
    using IH by blast+
  show ?case
    unfolding m
    using executeStatement_mono_step[of n m', OF E B L]
      executeBody_mono_step[of n m', OF S B]
      loop_iterations_mono_step[of n m', OF B L]
      evaluateExpression_mono_step[of n m', OF E A B]
      evaluateArguments_mono_step[of n m', OF E A]
    by blast
qed

lemma Interpret_mono:
  assumes "Interpret n program i = Some r" and "n \<le> m"
  shows "Interpret m program i = Some r"
  using assms evaluator_mono[of n m] unfolding Interpret_def by blast

section \<open>The runs of a loop\<close>

lemma executeStatement_mono:
  "executeStatement n s i = Some r \<Longrightarrow> n \<le> m \<Longrightarrow> executeStatement m s i = Some r"
  using evaluator_mono[of n m] by blast

lemma executeBody_mono:
  "executeBody n b i = Some r \<Longrightarrow> n \<le> m \<Longrightarrow> executeBody m b i = Some r"
  using evaluator_mono[of n m] by blast

lemma loop_iterations_mono:
  "loop_iterations n x j t b i = Some r \<Longrightarrow> n \<le> m \<Longrightarrow> loop_iterations m x j t b i = Some r"
  using evaluator_mono[of n m] by blast

lemma evaluateExpression_mono:
  "evaluateExpression n e i = Some r \<Longrightarrow> n \<le> m \<Longrightarrow> evaluateExpression m e i = Some r"
  using evaluator_mono[of n m] by blast

text \<open>
  The body of a loop is run once for each number of the list \<open>js\<close>, in order, with the
  loop variable bound to that number in the current frame at the start of the run; each
  run ends without error, and the next starts in the interpreter it leaves.
\<close>

primrec body_runs :: "string \<Rightarrow> Statement list \<Rightarrow> real list \<Rightarrow> Interpreter \<Rightarrow> Interpreter \<Rightarrow> bool" where
  "body_runs var body [] i i' = (i' = i)"
| "body_runs var body (j # js) i i' =
     (\<exists>m u i1.
        executeBody m body (i\<lparr>environment := SetVariable (environment i) var (NumberValue j)\<rparr>) =
          Some (Inr u, i1) \<and>
        body_runs var body js i1 i')"

lemma loop_iterations_body_runs:
  assumes "loop_iterations n var (of_int a) (of_int b) body i = Some (Inr u, i')"
    and "a \<le> b \<longrightarrow> - (2 ^ 53) \<le> a \<and> b < 2 ^ 53"
  shows "body_runs var body (map of_int [a..b]) i i'"
  using assms
proof (induction n arbitrary: a i)
  case 0
  then show ?case by simp
next
  case (Suc n)
  show ?case
  proof (cases "a \<le> b")
    case False
    with Suc.prems show ?thesis by simp
  next
    case True
    then have ab: "[a..b] = a # [a + 1..b]" by (simp add: upto_rec1)
    from True Suc.prems(2) have inc: "increment (of_int a) = of_int (a + 1)"
      by (intro increment_exact) auto
    from Suc.prems(1) True obtain u1 i1 where
      b: "executeBody n body
            (i\<lparr>environment := SetVariable (environment i) var (NumberValue (of_int a))\<rparr>) =
          Some (Inr u1, i1)"
      and l: "loop_iterations n var (of_int (a + 1)) (of_int b) body i1 = Some (Inr u, i')"
      unfolding inc[symmetric] by (auto simp: on_success_eq_Some_Inr)
    from Suc.prems(2) True have "a + 1 \<le> b \<longrightarrow> - (2 ^ 53) \<le> a + 1 \<and> b < 2 ^ 53" by auto
    from Suc.IH[OF l this] b show ?thesis unfolding ab by auto
  qed
qed

lemma body_runs_loop_iterations:
  assumes "body_runs var body (map of_int [a..b]) i i'"
    and "a \<le> b \<longrightarrow> - (2 ^ 53) \<le> a \<and> b < 2 ^ 53"
  shows "\<exists>N. \<forall>n\<ge>N. loop_iterations n var (of_int a) (of_int b) body i = Some (Inr (), i')"
  using assms
proof (induction "nat (b + 1 - a)" arbitrary: a i)
  case 0
  then have ba: "b < a" by simp
  with "0.prems"(1) have i': "i' = i" by (simp add: upto_empty)
  have "loop_iterations n var (of_int a) (of_int b) body i = Some (Inr (), i')" if "1 \<le> n" for n
    using that ba i' by (cases n) simp_all
  then show ?case by blast
next
  case (Suc k)
  then have le: "a \<le> b" and k: "k = nat (b + 1 - (a + 1))" by auto
  then have ab: "[a..b] = a # [a + 1..b]" by (simp add: upto_rec1)
  from le Suc.prems(2) have inc: "increment (of_int a) = of_int (a + 1)"
    by (intro increment_exact) auto
  from Suc.prems(1) obtain m u i1 where
    b: "executeBody m body
          (i\<lparr>environment := SetVariable (environment i) var (NumberValue (of_int a))\<rparr>) =
        Some (Inr u, i1)"
    and r: "body_runs var body (map of_int [a + 1..b]) i1 i'"
    unfolding ab by auto
  from Suc.prems(2) le have "a + 1 \<le> b \<longrightarrow> - (2 ^ 53) \<le> a + 1 \<and> b < 2 ^ 53" by auto
  from Suc.hyps(1)[OF k r this] obtain N where
    N: "\<And>n. N \<le> n \<Longrightarrow> loop_iterations n var (of_int (a + 1)) (of_int b) body i1 = Some (Inr (), i')"
    by blast
  have "loop_iterations n var (of_int a) (of_int b) body i = Some (Inr (), i')"
    if "Suc (max m N) \<le> n" for n
  proof -
    from that obtain n' where n: "n = Suc n'" and "m \<le> n'" "N \<le> n'" by (cases n) auto
    from executeBody_mono[OF b \<open>m \<le> n'\<close>] N[OF \<open>N \<le> n'\<close>] le show ?thesis
      unfolding n by (simp add: inc)
  qed
  then show ?case by blast
qed

text \<open>
  At \<open>2^53\<close> the counter stays where it is, and the loop does not end. Below \<open>-2^53\<close> the
  counter skips the integers that are no \<^verbatim>\<open>float64\<close>.
\<close>

lemma increment_at_the_limits:
  "increment 9007199254740992 = 9007199254740992"
  "increment (- 9007199254740994) = - 9007199254740992"
  "increment (- 9007199254740992) = - 9007199254740991"
  using increment_exact[of "- 9007199254740992"]
  by (simp_all add: increment_def float64_of_int_ties)

lemma loop_from_2_53_never_returns:
  "loop_iterations n var 9007199254740992 9007199254740992 [] i = None"
proof (induction n arbitrary: i)
  case 0
  show ?case by simp
next
  case (Suc n)
  note IH = Suc.IH
  show ?case
  proof (cases n)
    case 0
    then show ?thesis by simp
  next
    case (Suc n')
    then have "executeBody n [] x = Some (Inr (), x)" for x by simp
    then show ?thesis by (simp add: increment_at_the_limits IH)
  qed
qed

lemma sscanf_2_53:
  "sscanf_f ''9007199254740994'' = Some 9007199254740994"
  "sscanf_f ''9007199254740992'' = Some 9007199254740992"
  by (simp_all add: sscanf_f_def isDigit_def digits_value_def)

lemma format_g_2_53:
  "format_g (- 9007199254740994) = ''-9.007199254740994e+15''"
  "format_g (- 9007199254740992) = ''-9.007199254740992e+15''"
  by (simp_all add: format_g_def show_nat.simps digit_char_def strip_zeros_def Let_def)




section \<open>The parser returns on every token list\<close>

subsection \<open>A parse that succeeds has moved forward, and stays in the list\<close>

text \<open>
  A parsing function \<open>advances\<close> when every node it returns ends after the position it
  started at and not after the end of the list; a loop \<open>keeps\<close> its position or moves it
  forward; the loops over arguments and parameters stop on a closing parenthesis, so
  inside the list.
\<close>

definition advances :: "(Token list \<Rightarrow> nat \<Rightarrow> 'a parsed) \<Rightarrow> bool" where
  "advances f = (\<forall>toks pos x p. f toks pos = Some (Inr (x, p)) \<longrightarrow> pos < p \<and> p \<le> length toks)"

definition keeps :: "(Token list \<Rightarrow> nat \<Rightarrow> 'a parsed) \<Rightarrow> bool" where
  "keeps f = (\<forall>toks pos x p. f toks pos = Some (Inr (x, p)) \<longrightarrow>
     pos \<le> p \<and> (pos \<le> length toks \<longrightarrow> p \<le> length toks))"

definition stops_inside :: "(Token list \<Rightarrow> nat \<Rightarrow> 'a parsed) \<Rightarrow> bool" where
  "stops_inside f = (\<forall>toks pos x p. f toks pos = Some (Inr (x, p)) \<longrightarrow> pos \<le> p \<and> p < length toks)"

lemma advancesD:
  "advances f \<Longrightarrow> f toks pos = Some (Inr (x, p)) \<Longrightarrow> pos < p \<and> p \<le> length toks"
  by (simp add: advances_def)

lemma keepsD:
  "keeps f \<Longrightarrow> f toks pos = Some (Inr (x, p)) \<Longrightarrow>
     pos \<le> p \<and> (pos \<le> length toks \<longrightarrow> p \<le> length toks)"
  unfolding keeps_def by blast

lemma stops_insideD:
  "stops_inside f \<Longrightarrow> f toks pos = Some (Inr (x, p)) \<Longrightarrow> pos \<le> p \<and> p < length toks"
  by (simp add: stops_inside_def)

lemma current_not_eof_in_range:
  "Type (current toks pos) \<noteq> TokenEOF \<Longrightarrow> pos < length toks"
  by (auto simp: current_def eofToken_def split: if_splits)

lemma current_type_in_range:
  "Type (current toks pos) = t \<Longrightarrow> t \<noteq> TokenEOF \<Longrightarrow> pos < length toks"
  by (auto simp: current_def eofToken_def split: if_splits)

lemma operator_in_range:
  "Type (current toks pos) \<in> set (level_operators lvl) \<Longrightarrow> pos < length toks"
  by (rule current_not_eof_in_range) (cases lvl; auto)

lemma then_parse_InrE:
  assumes "then_parse m rest = Some (Inr r)"
  obtains x p where "m = Some (Inr (x, p))" "rest x p = Some (Inr r)"
  using assms by (auto simp: then_parse_def split: option.splits sum.splits prod.splits)

lemma parseBinary_advances_step:
  assumes B: "\<And>lvl. advances (parseBinary n lvl)"
    and U: "advances (parseUnary n)"
    and L: "\<And>lvl l. keeps (\<lambda>toks. parseBinary_loop n lvl toks l)"
  shows "advances (parseBinary (Suc n) lvl)"
  unfolding advances_def
  by (auto elim!: then_parse_InrE dest!: advancesD[OF B] advancesD[OF U] keepsD[OF L]
      split: option.splits)

lemma parseBinary_loop_keeps_step:
  assumes B: "\<And>lvl. advances (parseBinary n lvl)"
    and U: "advances (parseUnary n)"
    and L: "\<And>lvl l. keeps (\<lambda>toks. parseBinary_loop n lvl toks l)"
  shows "keeps (\<lambda>toks. parseBinary_loop (Suc n) lvl toks l)"
  unfolding keeps_def
  by (auto elim!: then_parse_InrE dest!: advancesD[OF B] advancesD[OF U] keepsD[OF L]
      split: option.splits if_splits)

lemma parseUnary_advances_step:
  assumes U: "advances (parseUnary n)"
    and P: "advances (parsePrimary n)"
  shows "advances (parseUnary (Suc n))"
  unfolding advances_def
  by (auto elim!: then_parse_InrE dest!: advancesD[OF U] advancesD[OF P] split: if_splits)

lemma parsePrimary_advances_step:
  assumes E: "advances (parseExpression n)"
    and F: "\<And>name. advances (parseFunctionCall n name)"
  shows "advances (parsePrimary (Suc n))"
  unfolding advances_def
  by (auto simp: Let_def current_def eofToken_def elim!: then_parse_InrE
      dest!: advancesD[OF E] advancesD[OF F] split: if_splits)

lemma parseFunctionCall_advances_step:
  assumes A: "\<And>as. stops_inside (\<lambda>toks. parseArguments n toks as)"
  shows "advances (parseFunctionCall (Suc n) name)"
  unfolding advances_def
  by (auto simp: current_def eofToken_def elim!: then_parse_InrE dest!: stops_insideD[OF A]
      split: if_splits)

lemma parseArguments_stops_inside_step:
  assumes E: "advances (parseExpression n)"
    and A: "\<And>as. stops_inside (\<lambda>toks. parseArguments n toks as)"
  shows "stops_inside (\<lambda>toks. parseArguments (Suc n) toks as)"
  unfolding stops_inside_def
  by (auto simp: current_def eofToken_def elim!: then_parse_InrE
      dest!: advancesD[OF E] stops_insideD[OF A] split: if_splits)

lemma expression_progress:
  "advances (parseExpression n) \<and>
   (\<forall>lvl. advances (parseBinary n lvl)) \<and>
   (\<forall>lvl l. keeps (\<lambda>toks. parseBinary_loop n lvl toks l)) \<and>
   advances (parseUnary n) \<and>
   advances (parsePrimary n) \<and>
   (\<forall>name. advances (parseFunctionCall n name)) \<and>
   (\<forall>as. stops_inside (\<lambda>toks. parseArguments n toks as))"
proof (induction n)
  case 0
  show ?case by (simp add: advances_def keeps_def stops_inside_def)
next
  case (Suc n)
  then have E: "advances (parseExpression n)"
    and B: "\<And>lvl. advances (parseBinary n lvl)"
    and L: "\<And>lvl l. keeps (\<lambda>toks. parseBinary_loop n lvl toks l)"
    and U: "advances (parseUnary n)"
    and P: "advances (parsePrimary n)"
    and F: "\<And>name. advances (parseFunctionCall n name)"
    and A: "\<And>as. stops_inside (\<lambda>toks. parseArguments n toks as)"
    by simp_all
  have E': "advances (parseExpression (Suc n))"
    using B[of LogicalOr] by (simp add: advances_def)
  show ?case
    using E' parseBinary_advances_step[OF B U L] parseBinary_loop_keeps_step[OF B U L]
      parseUnary_advances_step[OF U P] parsePrimary_advances_step[OF E F]
      parseFunctionCall_advances_step[OF A] parseArguments_stops_inside_step[OF E A]
    by blast
qed

lemmas parseExpression_advances = expression_progress[THEN conjunct1]
lemmas parseBinary_advances = expression_progress[THEN conjunct2, THEN conjunct1, rule_format]
lemmas parseUnary_advances =
  expression_progress[THEN conjunct2, THEN conjunct2, THEN conjunct2, THEN conjunct1]

lemma parseParameters_stops_inside:
  "parseParameters toks parameters pos = Inr (x, p) \<Longrightarrow> pos \<le> p \<and> p < length toks"
proof (induction toks parameters pos rule: parseParameters.induct)
  case (1 toks parameters pos)
  show ?case
  proof (cases "Type (current toks pos) \<noteq> TokenRightParen")
    case False
    with "1.prems" show ?thesis
      by (auto simp: parseParameters.simps[of toks parameters pos] dest: current_type_in_range)
  next
    case True
    with "1.prems" "1.IH" show ?thesis
      by (fastforce simp: parseParameters.simps[of toks parameters pos] Let_def
          split: if_splits sum.splits)
  qed
qed

lemma parseVariableDeclaration_advances: "advances (parseVariableDeclaration n)"
  unfolding advances_def parseVariableDeclaration_def
  by (auto simp: Let_def elim!: then_parse_InrE dest!: advancesD[OF parseExpression_advances]
      split: if_splits sum.splits)

lemma parseAssignment_advances: "advances (parseAssignment n)"
  unfolding advances_def parseAssignment_def
  by (auto simp: Let_def elim!: then_parse_InrE dest!: advancesD[OF parseExpression_advances]
      split: if_splits)

lemma parsePrintStatement_advances: "advances (parsePrintStatement n)"
  unfolding advances_def parsePrintStatement_def
  by (auto elim!: then_parse_InrE dest!: advancesD[OF parseExpression_advances])

lemma parseExpressionStatement_advances: "advances (parseExpressionStatement n)"
  unfolding advances_def parseExpressionStatement_def
  by (auto elim!: then_parse_InrE dest!: advancesD[OF parseExpression_advances])

lemma parseStatement_advances_step:
  assumes I: "advances (parseIfStatement n)"
    and L: "advances (parseLoopStatement n)"
    and F: "advances (parseFunctionDeclaration n)"
  shows "advances (parseStatement (Suc n))"
  unfolding advances_def
  by (auto simp: Let_def dest!: advancesD[OF I] advancesD[OF L] advancesD[OF F]
      advancesD[OF parseVariableDeclaration_advances] advancesD[OF parseAssignment_advances]
      advancesD[OF parsePrintStatement_advances] advancesD[OF parseExpressionStatement_advances]
      split: if_splits)

lemma parseBlock_keeps_step:
  assumes S: "advances (parseStatement n)"
    and B: "\<And>stopAtElse body. keeps (\<lambda>toks. parseBlock n stopAtElse toks body)"
  shows "keeps (\<lambda>toks. parseBlock (Suc n) stopAtElse toks body)"
  unfolding keeps_def
  by (auto elim!: then_parse_InrE dest!: advancesD[OF S] keepsD[OF B] split: if_splits)

lemma parseIfStatement_advances_step:
  assumes B: "\<And>stopAtElse body. keeps (\<lambda>toks. parseBlock n stopAtElse toks body)"
  shows "advances (parseIfStatement (Suc n))"
  unfolding advances_def
  by (auto simp: current_def eofToken_def elim!: then_parse_InrE
      dest!: advancesD[OF parseExpression_advances] keepsD[OF B] split: if_splits)

lemma parseLoopStatement_advances_step:
  assumes B: "\<And>stopAtElse body. keeps (\<lambda>toks. parseBlock n stopAtElse toks body)"
  shows "advances (parseLoopStatement (Suc n))"
  unfolding advances_def
  by (auto simp: current_def eofToken_def elim!: then_parse_InrE
      dest!: advancesD[OF parseExpression_advances] keepsD[OF B] split: if_splits)

lemma parseFunctionDeclaration_advances_step:
  assumes B: "\<And>stopAtElse body. keeps (\<lambda>toks. parseBlock n stopAtElse toks body)"
  shows "advances (parseFunctionDeclaration (Suc n))"
  unfolding advances_def
  by (auto simp: current_def eofToken_def elim!: then_parse_InrE
      dest!: parseParameters_stops_inside keepsD[OF B] split: if_splits)

lemma statement_progress:
  "advances (parseStatement n) \<and>
   (\<forall>stopAtElse body. keeps (\<lambda>toks. parseBlock n stopAtElse toks body)) \<and>
   advances (parseIfStatement n) \<and>
   advances (parseLoopStatement n) \<and>
   advances (parseFunctionDeclaration n)"
proof (induction n)
  case 0
  show ?case by (simp add: advances_def keeps_def)
next
  case (Suc n)
  then have S: "advances (parseStatement n)"
    and B: "\<And>stopAtElse body. keeps (\<lambda>toks. parseBlock n stopAtElse toks body)"
    and I: "advances (parseIfStatement n)"
    and L: "advances (parseLoopStatement n)"
    and F: "advances (parseFunctionDeclaration n)"
    by simp_all
  show ?case
    using parseStatement_advances_step[OF I L F] parseBlock_keeps_step[OF S B]
      parseIfStatement_advances_step[OF B] parseLoopStatement_advances_step[OF B]
      parseFunctionDeclaration_advances_step[OF B]
    by blast
qed

lemmas parseStatement_advances = statement_progress[THEN conjunct1]
lemmas parseBlock_keeps = statement_progress[THEN conjunct2, THEN conjunct1, rule_format]

subsection \<open>A bound on the depth of the calls that is enough\<close>

text \<open>
  Twelve calls at most are nested between two tokens taken from the list: with \<open>r\<close>
  tokens left, a bound of \<open>12 * r\<close> plus the rank of the function, which is the number of
  calls it can nest before a token is taken, is enough for it to return.
\<close>

fun level_rank :: "level \<Rightarrow> nat" where
  "level_rank LogicalOr = 8"
| "level_rank LogicalAnd = 7"
| "level_rank Equality = 6"
| "level_rank Comparison = 5"
| "level_rank Term = 4"
| "level_rank Factor = 3"

definition returns_with :: "nat \<Rightarrow> nat \<Rightarrow> (Token list \<Rightarrow> nat \<Rightarrow> 'a parsed) \<Rightarrow> bool" where
  "returns_with n k f = (\<forall>toks pos. 12 * (length toks - pos) + k \<le> n \<longrightarrow> f toks pos \<noteq> None)"

lemma returns_withD:
  "returns_with n k f \<Longrightarrow> 12 * (length toks - pos) + k \<le> n \<Longrightarrow> f toks pos \<noteq> None"
  by (simp add: returns_with_def)

lemma then_parse_returns:
  assumes "m \<noteq> None" and "\<And>x p. m = Some (Inr (x, p)) \<Longrightarrow> rest x p \<noteq> None"
  shows "then_parse m rest \<noteq> None"
  using assms by (auto simp: then_parse_def split: option.splits sum.splits prod.splits)

lemma operand_advances:
  assumes "(case next_level lvl of Some lvl' \<Rightarrow> parseBinary n lvl' toks pos
            | None \<Rightarrow> parseUnary n toks pos) = Some (Inr (x, p))"
  shows "pos < p \<and> p \<le> length toks"
  using assms advancesD[OF parseBinary_advances] advancesD[OF parseUnary_advances]
  by (cases "next_level lvl") auto

lemma operand_returns:
  assumes B: "\<And>lvl. returns_with n (level_rank lvl) (parseBinary n lvl)"
    and U: "returns_with n 2 (parseUnary n)"
    and b: "12 * (length toks - pos) + level_rank lvl \<le> Suc n"
  shows "(case next_level lvl of Some lvl' \<Rightarrow> parseBinary n lvl' toks pos
          | None \<Rightarrow> parseUnary n toks pos) \<noteq> None"
  using b returns_withD[OF B, where toks = toks and pos = pos]
    returns_withD[OF U, where toks = toks and pos = pos]
  by (cases lvl) auto

lemma parseBinary_returns_step:
  assumes B: "\<And>lvl. returns_with n (level_rank lvl) (parseBinary n lvl)"
    and U: "returns_with n 2 (parseUnary n)"
    and L: "\<And>lvl l. returns_with n 1 (\<lambda>toks. parseBinary_loop n lvl toks l)"
  shows "returns_with (Suc n) (level_rank lvl) (parseBinary (Suc n) lvl)"
  unfolding returns_with_def
proof (intro allI impI)
  fix toks :: "Token list" and pos :: nat
  assume b: "12 * (length toks - pos) + level_rank lvl \<le> Suc n"
  have r: "3 \<le> level_rank lvl" by (cases lvl) auto
  have "then_parse
       (case next_level lvl of
          Some lvl' \<Rightarrow> parseBinary n lvl' toks pos
        | None \<Rightarrow> parseUnary n toks pos)
       (\<lambda>left pos1. parseBinary_loop n lvl toks left pos1) \<noteq> None"
  proof (rule then_parse_returns[OF operand_returns[OF B U b]])
    fix x p
    assume "(case next_level lvl of Some lvl' \<Rightarrow> parseBinary n lvl' toks pos
            | None \<Rightarrow> parseUnary n toks pos) = Some (Inr (x, p))"
    from operand_advances[OF this] have "pos < p" "p \<le> length toks" by auto
    then have "12 * (length toks - p) + 1 \<le> n" using b r by arith
    then show "parseBinary_loop n lvl toks x p \<noteq> None" by (rule returns_withD[OF L])
  qed
  then show "parseBinary (Suc n) lvl toks pos \<noteq> None" by simp
qed

lemma parseBinary_loop_returns_step:
  assumes B: "\<And>lvl. returns_with n (level_rank lvl) (parseBinary n lvl)"
    and U: "returns_with n 2 (parseUnary n)"
    and L: "\<And>lvl l. returns_with n 1 (\<lambda>toks. parseBinary_loop n lvl toks l)"
  shows "returns_with (Suc n) 1 (\<lambda>toks. parseBinary_loop (Suc n) lvl toks l)"
  unfolding returns_with_def
proof (intro allI impI)
  fix toks :: "Token list" and pos :: nat
  assume b: "12 * (length toks - pos) + 1 \<le> Suc n"
  show "parseBinary_loop (Suc n) lvl toks l pos \<noteq> None"
  proof (cases "Type (current toks pos) \<in> set (level_operators lvl)")
    case False
    then show ?thesis by simp
  next
    case True
    then have i: "pos < length toks" by (rule operator_in_range)
    have r: "level_rank lvl \<le> 8" by (cases lvl) auto
    have b': "12 * (length toks - (pos + 1)) + level_rank lvl \<le> Suc n"
      using b i r by arith
    have "then_parse
             (case next_level lvl of
                Some lvl' \<Rightarrow> parseBinary n lvl' toks (pos + 1)
              | None \<Rightarrow> parseUnary n toks (pos + 1))
             (\<lambda>right pos1.
                parseBinary_loop n lvl toks
                  (BinaryExpression l (Value (current toks pos)) right) pos1) \<noteq> None"
    proof (rule then_parse_returns[OF operand_returns[OF B U b']])
      fix x p
      assume "(case next_level lvl of Some lvl' \<Rightarrow> parseBinary n lvl' toks (pos + 1)
              | None \<Rightarrow> parseUnary n toks (pos + 1)) = Some (Inr (x, p))"
      from operand_advances[OF this] have "pos + 1 < p" "p \<le> length toks" by auto
      then have "12 * (length toks - p) + 1 \<le> n" using b by arith
      then show "parseBinary_loop n lvl toks (BinaryExpression l (Value (current toks pos)) x) p
          \<noteq> None"
        by (rule returns_withD[OF L])
    qed
    with True show ?thesis by simp
  qed
qed

lemma parseUnary_returns_step:
  assumes U: "returns_with n 2 (parseUnary n)"
    and P: "returns_with n 1 (parsePrimary n)"
  shows "returns_with (Suc n) 2 (parseUnary (Suc n))"
  unfolding returns_with_def
proof (intro allI impI)
  fix toks :: "Token list" and pos :: nat
  assume b: "12 * (length toks - pos) + 2 \<le> Suc n"
  show "parseUnary (Suc n) toks pos \<noteq> None"
  proof (cases "Type (current toks pos) = TokenMinus \<or> Type (current toks pos) = TokenNot")
    case False
    have "parsePrimary n toks pos \<noteq> None"
      by (rule returns_withD[OF P]) (use b in arith)
    with False show ?thesis by simp
  next
    case True
    then have "pos < length toks" by (auto dest: current_type_in_range)
    then have "12 * (length toks - (pos + 1)) + 2 \<le> n" using b by arith
    then have "parseUnary n toks (pos + 1) \<noteq> None" by (rule returns_withD[OF U])
    then have "then_parse (parseUnary n toks (pos + 1))
             (\<lambda>operand pos1.
                Some (Inr (UnaryExpression (Value (current toks pos)) operand, pos1))) \<noteq> None"
      by (rule then_parse_returns) simp
    with True show ?thesis by simp
  qed
qed

lemma parsePrimary_returns_step:
  assumes E: "returns_with n 9 (parseExpression n)"
    and F: "\<And>name. returns_with n 11 (parseFunctionCall n name)"
  shows "returns_with (Suc n) 1 (parsePrimary (Suc n))"
  unfolding returns_with_def
proof (intro allI impI)
  fix toks :: "Token list" and pos :: nat
  assume b: "12 * (length toks - pos) + 1 \<le> Suc n"
  have call: "parseFunctionCall n name toks (pos + 1) \<noteq> None"
    if "Type (current toks pos) = TokenIdentifier" for name
  proof (rule returns_withD[OF F])
    from that have "pos < length toks" by (auto dest: current_type_in_range)
    then show "12 * (length toks - (pos + 1)) + 11 \<le> n" using b by arith
  qed
  have paren: "then_parse (parseExpression n toks (pos + 1))
             (\<lambda>expr pos1.
                if Type (current toks pos1) \<noteq> TokenRightParen
                then Some (Inl (''expected ')', got '' @ Value (current toks pos1)))
                else Some (Inr (expr, pos1 + 1))) \<noteq> None"
    if "Type (current toks pos) = TokenLeftParen"
  proof (rule then_parse_returns)
    from that have "pos < length toks" by (auto dest: current_type_in_range)
    then have "12 * (length toks - (pos + 1)) + 9 \<le> n" using b by arith
    then show "parseExpression n toks (pos + 1) \<noteq> None" by (rule returns_withD[OF E])
  qed simp
  show "parsePrimary (Suc n) toks pos \<noteq> None"
    using call paren by (simp add: Let_def)
qed

lemma parseFunctionCall_returns_step:
  assumes A: "\<And>as. returns_with n 10 (\<lambda>toks. parseArguments n toks as)"
  shows "returns_with (Suc n) 11 (parseFunctionCall (Suc n) name)"
  unfolding returns_with_def
proof (intro allI impI)
  fix toks :: "Token list" and pos :: nat
  assume b: "12 * (length toks - pos) + 11 \<le> Suc n"
  have "then_parse (parseArguments n toks [] (pos + 1))
       (\<lambda>arguments pos1.
          if Type (current toks pos1) \<noteq> TokenRightParen
          then Some (Inl (''expected ')', got '' @ Value (current toks pos1)))
          else Some (Inr (FunctionCall name arguments, pos1 + 1))) \<noteq> None"
  proof (rule then_parse_returns)
    have "12 * (length toks - (pos + 1)) + 10 \<le> n" using b by arith
    then show "parseArguments n toks [] (pos + 1) \<noteq> None" by (rule returns_withD[OF A])
  qed simp
  then show "parseFunctionCall (Suc n) name toks pos \<noteq> None" by simp
qed

lemma parseArguments_returns_step:
  assumes E: "returns_with n 9 (parseExpression n)"
    and A: "\<And>as. returns_with n 10 (\<lambda>toks. parseArguments n toks as)"
  shows "returns_with (Suc n) 10 (\<lambda>toks. parseArguments (Suc n) toks as)"
  unfolding returns_with_def
proof (intro allI impI)
  fix toks :: "Token list" and pos :: nat
  assume b: "12 * (length toks - pos) + 10 \<le> Suc n"
  have "then_parse (parseExpression n toks pos')
          (\<lambda>arg pos1. parseArguments n toks (as @ [arg]) pos1) \<noteq> None"
    if p: "pos \<le> pos'" for pos'
  proof (rule then_parse_returns)
    have "12 * (length toks - pos') + 9 \<le> n" using b p by arith
    then show "parseExpression n toks pos' \<noteq> None" by (rule returns_withD[OF E])
  next
    fix x p1
    assume "parseExpression n toks pos' = Some (Inr (x, p1))"
    from advancesD[OF parseExpression_advances this] have "pos' < p1" "p1 \<le> length toks"
      by auto
    then have "12 * (length toks - p1) + 10 \<le> n" using b p by arith
    then show "parseArguments n toks (as @ [x]) p1 \<noteq> None" by (rule returns_withD[OF A])
  qed
  from this[of pos] this[of "pos + 1"]
  show "parseArguments (Suc n) toks as pos \<noteq> None" by simp
qed

lemma expression_returns:
  "returns_with n 9 (parseExpression n) \<and>
   (\<forall>lvl. returns_with n (level_rank lvl) (parseBinary n lvl)) \<and>
   (\<forall>lvl l. returns_with n 1 (\<lambda>toks. parseBinary_loop n lvl toks l)) \<and>
   returns_with n 2 (parseUnary n) \<and>
   returns_with n 1 (parsePrimary n) \<and>
   (\<forall>name. returns_with n 11 (parseFunctionCall n name)) \<and>
   (\<forall>as. returns_with n 10 (\<lambda>toks. parseArguments n toks as))"
proof (induction n)
  case 0
  have "0 < level_rank lvl" for lvl by (cases lvl) auto
  then show ?case by (simp add: returns_with_def)
next
  case (Suc n)
  then have E: "returns_with n 9 (parseExpression n)"
    and B: "\<And>lvl. returns_with n (level_rank lvl) (parseBinary n lvl)"
    and L: "\<And>lvl l. returns_with n 1 (\<lambda>toks. parseBinary_loop n lvl toks l)"
    and U: "returns_with n 2 (parseUnary n)"
    and P: "returns_with n 1 (parsePrimary n)"
    and F: "\<And>name. returns_with n 11 (parseFunctionCall n name)"
    and A: "\<And>as. returns_with n 10 (\<lambda>toks. parseArguments n toks as)"
    by simp_all
  have E': "returns_with (Suc n) 9 (parseExpression (Suc n))"
    using B[of LogicalOr] by (simp add: returns_with_def)
  show ?case
    using E' parseBinary_returns_step[OF B U L] parseBinary_loop_returns_step[OF B U L]
      parseUnary_returns_step[OF U P] parsePrimary_returns_step[OF E F]
      parseFunctionCall_returns_step[OF A] parseArguments_returns_step[OF E A]
    by blast
qed

lemmas parseExpression_returns = expression_returns[THEN conjunct1]

lemma then_parse_returns_iff:
  "(\<exists>y. then_parse m rest = Some y) \<longleftrightarrow>
     (\<exists>y. m = Some y) \<and> (\<forall>x p. m = Some (Inr (x, p)) \<longrightarrow> (\<exists>y. rest x p = Some y))"
  by (auto simp: then_parse_def split: option.splits sum.splits prod.splits)

lemma returns_with_Some:
  "returns_with n k f \<Longrightarrow> 12 * (length toks - pos) + k \<le> n \<Longrightarrow> \<exists>y. f toks pos = Some y"
  by (simp add: returns_with_def)

lemma parseExpression_returns_from:
  assumes "12 * (length toks - pos) + 9 \<le> n" and "pos \<le> q"
  shows "\<exists>y. parseExpression n toks q = Some y"
  by (rule returns_with_Some[OF parseExpression_returns]) (use assms in arith)

lemma parseVariableDeclaration_returns: "returns_with n 9 (parseVariableDeclaration n)"
  unfolding returns_with_def parseVariableDeclaration_def
  by (auto simp: Let_def then_parse_returns_iff parseExpression_returns_from
      split: sum.splits)

lemma parseAssignment_returns: "returns_with n 9 (parseAssignment n)"
  unfolding returns_with_def parseAssignment_def
  by (auto simp: Let_def then_parse_returns_iff parseExpression_returns_from)

lemma parsePrintStatement_returns: "returns_with n 9 (parsePrintStatement n)"
  unfolding returns_with_def parsePrintStatement_def
  by (auto simp: then_parse_returns_iff parseExpression_returns_from)

lemma parseExpressionStatement_returns: "returns_with n 9 (parseExpressionStatement n)"
  unfolding returns_with_def parseExpressionStatement_def
  by (auto simp: then_parse_returns_iff parseExpression_returns_from)

lemma parseStatement_returns_step:
  assumes I: "returns_with n 10 (parseIfStatement n)"
    and L: "returns_with n 10 (parseLoopStatement n)"
    and F: "returns_with n 10 (parseFunctionDeclaration n)"
  shows "returns_with (Suc n) 11 (parseStatement (Suc n))"
  unfolding returns_with_def
proof (intro allI impI)
  fix toks :: "Token list" and pos :: nat
  assume b: "12 * (length toks - pos) + 11 \<le> Suc n"
  then have b10: "12 * (length toks - pos) + 10 \<le> n" and b9: "12 * (length toks - pos) + 9 \<le> n"
    by arith+
  show "parseStatement (Suc n) toks pos \<noteq> None"
    using returns_withD[OF I b10] returns_withD[OF L b10] returns_withD[OF F b10]
      returns_withD[OF parseVariableDeclaration_returns b9]
      returns_withD[OF parseAssignment_returns b9]
      returns_withD[OF parsePrintStatement_returns b9]
      returns_withD[OF parseExpressionStatement_returns b9]
    by (simp add: Let_def)
qed

lemma parseBlock_returns_step:
  assumes S: "returns_with n 11 (parseStatement n)"
    and B: "\<And>stopAtElse body. returns_with n 12 (\<lambda>toks. parseBlock n stopAtElse toks body)"
  shows "returns_with (Suc n) 12 (\<lambda>toks. parseBlock (Suc n) stopAtElse toks body)"
  unfolding returns_with_def
proof (intro allI impI)
  fix toks :: "Token list" and pos :: nat
  assume b: "12 * (length toks - pos) + 12 \<le> Suc n"
  have s: "\<exists>y. parseStatement n toks pos = Some y"
    by (rule returns_with_Some[OF S]) (use b in arith)
  have blk: "\<exists>y. parseBlock n stopAtElse toks body' q = Some y"
    if "pos < q" "q \<le> length toks" for stopAtElse body' q
    by (rule returns_with_Some[OF B]) (use b that in arith)
  show "parseBlock (Suc n) stopAtElse toks body pos \<noteq> None"
    using s by (auto simp: then_parse_returns_iff blk dest!: advancesD[OF parseStatement_advances])
qed

lemma parseIfStatement_returns_step:
  assumes B: "\<And>stopAtElse body. returns_with n 12 (\<lambda>toks. parseBlock n stopAtElse toks body)"
  shows "returns_with (Suc n) 10 (parseIfStatement (Suc n))"
  unfolding returns_with_def
proof (intro allI impI)
  fix toks :: "Token list" and pos :: nat
  assume b: "12 * (length toks - pos) + 10 \<le> Suc n"
  have e: "\<exists>y. parseExpression n toks q = Some y" if "pos \<le> q" for q
    by (rule parseExpression_returns_from[OF _ that]) (use b in arith)
  have blk: "\<exists>y. parseBlock n stopAtElse toks body q = Some y"
    if "pos + 2 \<le> q" "pos + 2 \<le> length toks" for stopAtElse body q
    by (rule returns_with_Some[OF B]) (use b that in arith)
  show "parseIfStatement (Suc n) toks pos \<noteq> None"
    by (auto simp: then_parse_returns_iff blk e
        dest!: advancesD[OF parseExpression_advances] keepsD[OF parseBlock_keeps])
qed

lemma parseLoopStatement_returns_step:
  assumes B: "\<And>stopAtElse body. returns_with n 12 (\<lambda>toks. parseBlock n stopAtElse toks body)"
  shows "returns_with (Suc n) 10 (parseLoopStatement (Suc n))"
  unfolding returns_with_def
proof (intro allI impI)
  fix toks :: "Token list" and pos :: nat
  assume b: "12 * (length toks - pos) + 10 \<le> Suc n"
  have e: "\<exists>y. parseExpression n toks q = Some y" if "pos \<le> q" for q
    by (rule parseExpression_returns_from[OF _ that]) (use b in arith)
  have blk: "\<exists>y. parseBlock n stopAtElse toks body q = Some y"
    if "pos + 2 \<le> q" "pos + 2 \<le> length toks" for stopAtElse body q
    by (rule returns_with_Some[OF B]) (use b that in arith)
  show "parseLoopStatement (Suc n) toks pos \<noteq> None"
    by (auto simp: then_parse_returns_iff blk e
        dest!: advancesD[OF parseExpression_advances])
qed

lemma parseFunctionDeclaration_returns_step:
  assumes B: "\<And>stopAtElse body. returns_with n 12 (\<lambda>toks. parseBlock n stopAtElse toks body)"
  shows "returns_with (Suc n) 10 (parseFunctionDeclaration (Suc n))"
  unfolding returns_with_def
proof (intro allI impI)
  fix toks :: "Token list" and pos :: nat
  assume b: "12 * (length toks - pos) + 10 \<le> Suc n"
  have blk: "\<exists>y. parseBlock n stopAtElse toks body q = Some y"
    if "pos + 2 \<le> q" "pos + 2 \<le> length toks" for stopAtElse body q
    by (rule returns_with_Some[OF B]) (use b that in arith)
  show "parseFunctionDeclaration (Suc n) toks pos \<noteq> None"
    by (auto simp: then_parse_returns_iff blk
        dest!: parseParameters_stops_inside)
qed

lemma statement_returns:
  "returns_with n 11 (parseStatement n) \<and>
   (\<forall>stopAtElse body. returns_with n 12 (\<lambda>toks. parseBlock n stopAtElse toks body)) \<and>
   returns_with n 10 (parseIfStatement n) \<and>
   returns_with n 10 (parseLoopStatement n) \<and>
   returns_with n 10 (parseFunctionDeclaration n)"
proof (induction n)
  case 0
  show ?case by (simp add: returns_with_def)
next
  case (Suc n)
  then have S: "returns_with n 11 (parseStatement n)"
    and B: "\<And>stopAtElse body. returns_with n 12 (\<lambda>toks. parseBlock n stopAtElse toks body)"
    and I: "returns_with n 10 (parseIfStatement n)"
    and L: "returns_with n 10 (parseLoopStatement n)"
    and F: "returns_with n 10 (parseFunctionDeclaration n)"
    by simp_all
  show ?case
    using parseStatement_returns_step[OF I L F] parseBlock_returns_step[OF S B]
      parseIfStatement_returns_step[OF B] parseLoopStatement_returns_step[OF B]
      parseFunctionDeclaration_returns_step[OF B]
    by blast
qed

lemmas parseStatement_returns = statement_returns[THEN conjunct1]

lemma Parse_loop_returns:
  "12 * (length toks - pos) + 12 \<le> n \<Longrightarrow> \<exists>y. Parse_loop n toks program pos = Some y"
proof (induction n arbitrary: pos program)
  case 0
  then show ?case by simp
next
  case (Suc n)
  have s: "\<exists>y. parseStatement n toks pos = Some y"
    by (rule returns_with_Some[OF parseStatement_returns]) (use Suc.prems in arith)
  have l: "\<exists>y. Parse_loop n toks program' q = Some y"
    if "pos < q" "q \<le> length toks" for program' q
    by (rule Suc.IH) (use Suc.prems that in arith)
  show ?case
    by (auto simp: then_parse_returns_iff s l dest!: advancesD[OF parseStatement_advances])
qed

lemma Parse_returns:
  assumes "12 * length toks + 12 \<le> n"
  shows "\<exists>r. Parse n toks = Some r"
proof -
  from assms have "12 * (length toks - 0) + 12 \<le> n" by simp
  from Parse_loop_returns[OF this, of "[]"] show ?thesis
    by (auto simp: Parse_def split: sum.splits)
qed

subsection \<open>A larger bound gives the same result\<close>

lemma then_parse_SomeE:
  assumes "then_parse m rest = Some r"
  obtains (failure) err where "m = Some (Inl err)" "r = Inl err"
  | (success) x p where "m = Some (Inr (x, p))" "rest x p = Some r"
  using assms by (auto simp: then_parse_def split: option.splits sum.splits prod.splits)

definition carries :: "(Token list \<Rightarrow> nat \<Rightarrow> 'a parsed) \<Rightarrow> (Token list \<Rightarrow> nat \<Rightarrow> 'a parsed) \<Rightarrow> bool" where
  "carries f g = (\<forall>toks pos r. f toks pos = Some r \<longrightarrow> g toks pos = Some r)"

lemma carriesD: "carries f g \<Longrightarrow> f toks pos = Some r \<Longrightarrow> g toks pos = Some r"
  by (simp add: carries_def)

lemma parseBinary_mono_step:
  assumes B: "\<And>lvl. carries (parseBinary n lvl) (parseBinary m lvl)"
    and U: "carries (parseUnary n) (parseUnary m)"
    and L: "\<And>lvl l. carries (\<lambda>toks. parseBinary_loop n lvl toks l) (\<lambda>toks. parseBinary_loop m lvl toks l)"
  shows "carries (parseBinary (Suc n) lvl) (parseBinary (Suc m) lvl)"
  unfolding carries_def
  by (cases "next_level lvl")
    (auto elim!: then_parse_SomeE dest!: carriesD[OF B] carriesD[OF U] carriesD[OF L])

lemma parseBinary_loop_mono_step:
  assumes B: "\<And>lvl. carries (parseBinary n lvl) (parseBinary m lvl)"
    and U: "carries (parseUnary n) (parseUnary m)"
    and L: "\<And>lvl l. carries (\<lambda>toks. parseBinary_loop n lvl toks l) (\<lambda>toks. parseBinary_loop m lvl toks l)"
  shows "carries (\<lambda>toks. parseBinary_loop (Suc n) lvl toks l)
    (\<lambda>toks. parseBinary_loop (Suc m) lvl toks l)"
  unfolding carries_def
  by (cases "next_level lvl")
    (auto elim!: then_parse_SomeE dest!: carriesD[OF B] carriesD[OF U] carriesD[OF L]
      split: if_splits)

lemma parseUnary_mono_step:
  assumes U: "carries (parseUnary n) (parseUnary m)"
    and P: "carries (parsePrimary n) (parsePrimary m)"
  shows "carries (parseUnary (Suc n)) (parseUnary (Suc m))"
  unfolding carries_def
  by (auto elim!: then_parse_SomeE dest!: carriesD[OF U] carriesD[OF P] split: if_splits)

lemma parsePrimary_mono_step:
  assumes E: "carries (parseExpression n) (parseExpression m)"
    and F: "\<And>name. carries (parseFunctionCall n name) (parseFunctionCall m name)"
  shows "carries (parsePrimary (Suc n)) (parsePrimary (Suc m))"
  unfolding carries_def
  by (auto simp: Let_def elim!: then_parse_SomeE dest!: carriesD[OF E] carriesD[OF F]
      split: if_splits)

lemma parseFunctionCall_mono_step:
  assumes A: "\<And>as. carries (\<lambda>toks. parseArguments n toks as) (\<lambda>toks. parseArguments m toks as)"
  shows "carries (parseFunctionCall (Suc n) name) (parseFunctionCall (Suc m) name)"
  unfolding carries_def
  by (auto elim!: then_parse_SomeE dest!: carriesD[OF A] split: if_splits)

lemma parseArguments_mono_step:
  assumes E: "carries (parseExpression n) (parseExpression m)"
    and A: "\<And>as. carries (\<lambda>toks. parseArguments n toks as) (\<lambda>toks. parseArguments m toks as)"
  shows "carries (\<lambda>toks. parseArguments (Suc n) toks as) (\<lambda>toks. parseArguments (Suc m) toks as)"
  unfolding carries_def
  by (auto elim!: then_parse_SomeE dest!: carriesD[OF E] carriesD[OF A] split: if_splits)

lemma expression_mono:
  "n \<le> m \<Longrightarrow>
   carries (parseExpression n) (parseExpression m) \<and>
   (\<forall>lvl. carries (parseBinary n lvl) (parseBinary m lvl)) \<and>
   (\<forall>lvl l. carries (\<lambda>toks. parseBinary_loop n lvl toks l)
      (\<lambda>toks. parseBinary_loop m lvl toks l)) \<and>
   carries (parseUnary n) (parseUnary m) \<and>
   carries (parsePrimary n) (parsePrimary m) \<and>
   (\<forall>name. carries (parseFunctionCall n name) (parseFunctionCall m name)) \<and>
   (\<forall>as. carries (\<lambda>toks. parseArguments n toks as) (\<lambda>toks. parseArguments m toks as))"
proof (induction n arbitrary: m)
  case 0
  show ?case by (simp add: carries_def)
next
  case (Suc n)
  then obtain m' where m: "m = Suc m'" and le: "n \<le> m'" by (cases m) auto
  from Suc.IH[OF le]
  have E: "carries (parseExpression n) (parseExpression m')"
    and B: "\<And>lvl. carries (parseBinary n lvl) (parseBinary m' lvl)"
    and L: "\<And>lvl l. carries (\<lambda>toks. parseBinary_loop n lvl toks l)
      (\<lambda>toks. parseBinary_loop m' lvl toks l)"
    and U: "carries (parseUnary n) (parseUnary m')"
    and P: "carries (parsePrimary n) (parsePrimary m')"
    and F: "\<And>name. carries (parseFunctionCall n name) (parseFunctionCall m' name)"
    and A: "\<And>as. carries (\<lambda>toks. parseArguments n toks as) (\<lambda>toks. parseArguments m' toks as)"
    by simp_all
  have E': "carries (parseExpression (Suc n)) (parseExpression (Suc m'))"
    using B[of LogicalOr] by (simp add: carries_def)
  show ?case unfolding m
    using E' parseBinary_mono_step[OF B U L] parseBinary_loop_mono_step[OF B U L]
      parseUnary_mono_step[OF U P] parsePrimary_mono_step[OF E F]
      parseFunctionCall_mono_step[OF A] parseArguments_mono_step[OF E A]
    by blast
qed

lemmas parseExpression_mono = expression_mono[THEN conjunct1]

lemma parseVariableDeclaration_mono:
  assumes le: "n \<le> m"
  shows "carries (parseVariableDeclaration n) (parseVariableDeclaration m)"
  unfolding carries_def parseVariableDeclaration_def
  by (auto simp: Let_def elim!: then_parse_SomeE dest!: carriesD[OF parseExpression_mono[OF le]]
      split: if_splits)

lemma parseAssignment_mono:
  assumes le: "n \<le> m"
  shows "carries (parseAssignment n) (parseAssignment m)"
  unfolding carries_def parseAssignment_def
  by (auto simp: Let_def elim!: then_parse_SomeE dest!: carriesD[OF parseExpression_mono[OF le]]
      split: if_splits)

lemma parsePrintStatement_mono:
  assumes le: "n \<le> m"
  shows "carries (parsePrintStatement n) (parsePrintStatement m)"
  unfolding carries_def parsePrintStatement_def
  by (auto elim!: then_parse_SomeE dest!: carriesD[OF parseExpression_mono[OF le]])

lemma parseExpressionStatement_mono:
  assumes le: "n \<le> m"
  shows "carries (parseExpressionStatement n) (parseExpressionStatement m)"
  unfolding carries_def parseExpressionStatement_def
  by (auto elim!: then_parse_SomeE dest!: carriesD[OF parseExpression_mono[OF le]])

lemma parseStatement_mono_step:
  assumes le: "n \<le> m"
    and I: "carries (parseIfStatement n) (parseIfStatement m)"
    and L: "carries (parseLoopStatement n) (parseLoopStatement m)"
    and F: "carries (parseFunctionDeclaration n) (parseFunctionDeclaration m)"
  shows "carries (parseStatement (Suc n)) (parseStatement (Suc m))"
  unfolding carries_def
  by (auto simp: Let_def dest!: carriesD[OF I] carriesD[OF L] carriesD[OF F]
      carriesD[OF parseVariableDeclaration_mono[OF le]] carriesD[OF parseAssignment_mono[OF le]]
      carriesD[OF parsePrintStatement_mono[OF le]]
      carriesD[OF parseExpressionStatement_mono[OF le]]
      split: if_splits)

lemma parseBlock_mono_step:
  assumes S: "carries (parseStatement n) (parseStatement m)"
    and B: "\<And>stopAtElse body. carries (\<lambda>toks. parseBlock n stopAtElse toks body)
      (\<lambda>toks. parseBlock m stopAtElse toks body)"
  shows "carries (\<lambda>toks. parseBlock (Suc n) stopAtElse toks body)
    (\<lambda>toks. parseBlock (Suc m) stopAtElse toks body)"
  unfolding carries_def
  by (auto elim!: then_parse_SomeE dest!: carriesD[OF S] carriesD[OF B] split: if_splits)

lemma parseIfStatement_mono_step:
  assumes le: "n \<le> m"
    and B: "\<And>stopAtElse body. carries (\<lambda>toks. parseBlock n stopAtElse toks body)
      (\<lambda>toks. parseBlock m stopAtElse toks body)"
  shows "carries (parseIfStatement (Suc n)) (parseIfStatement (Suc m))"
  unfolding carries_def
  by (auto elim!: then_parse_SomeE dest!: carriesD[OF parseExpression_mono[OF le]] carriesD[OF B]
      split: if_splits)

lemma parseLoopStatement_mono_step:
  assumes le: "n \<le> m"
    and B: "\<And>stopAtElse body. carries (\<lambda>toks. parseBlock n stopAtElse toks body)
      (\<lambda>toks. parseBlock m stopAtElse toks body)"
  shows "carries (parseLoopStatement (Suc n)) (parseLoopStatement (Suc m))"
  unfolding carries_def
  by (auto elim!: then_parse_SomeE dest!: carriesD[OF parseExpression_mono[OF le]] carriesD[OF B]
      split: if_splits)

lemma parseFunctionDeclaration_mono_step:
  assumes B: "\<And>stopAtElse body. carries (\<lambda>toks. parseBlock n stopAtElse toks body)
      (\<lambda>toks. parseBlock m stopAtElse toks body)"
  shows "carries (parseFunctionDeclaration (Suc n)) (parseFunctionDeclaration (Suc m))"
  unfolding carries_def
  by (auto elim!: then_parse_SomeE dest!: carriesD[OF B] split: if_splits)

lemma statement_mono:
  "n \<le> m \<Longrightarrow>
   carries (parseStatement n) (parseStatement m) \<and>
   (\<forall>stopAtElse body. carries (\<lambda>toks. parseBlock n stopAtElse toks body)
      (\<lambda>toks. parseBlock m stopAtElse toks body)) \<and>
   carries (parseIfStatement n) (parseIfStatement m) \<and>
   carries (parseLoopStatement n) (parseLoopStatement m) \<and>
   carries (parseFunctionDeclaration n) (parseFunctionDeclaration m)"
proof (induction n arbitrary: m)
  case 0
  show ?case by (simp add: carries_def)
next
  case (Suc n)
  then obtain m' where m: "m = Suc m'" and le: "n \<le> m'" by (cases m) auto
  from Suc.IH[OF le]
  have S: "carries (parseStatement n) (parseStatement m')"
    and B: "\<And>stopAtElse body. carries (\<lambda>toks. parseBlock n stopAtElse toks body)
      (\<lambda>toks. parseBlock m' stopAtElse toks body)"
    and I: "carries (parseIfStatement n) (parseIfStatement m')"
    and L: "carries (parseLoopStatement n) (parseLoopStatement m')"
    and F: "carries (parseFunctionDeclaration n) (parseFunctionDeclaration m')"
    by simp_all
  show ?case unfolding m
    using parseStatement_mono_step[OF le I L F] parseBlock_mono_step[OF S B]
      parseIfStatement_mono_step[OF le B] parseLoopStatement_mono_step[OF le B]
      parseFunctionDeclaration_mono_step[OF B]
    by blast
qed

lemmas parseStatement_mono = statement_mono[THEN conjunct1]

lemma Parse_loop_mono:
  "Parse_loop n toks program pos = Some r \<Longrightarrow> n \<le> m \<Longrightarrow> Parse_loop m toks program pos = Some r"
proof (induction n arbitrary: m program pos)
  case 0
  then show ?case by simp
next
  case (Suc n)
  then obtain m' where m: "m = Suc m'" and le: "n \<le> m'" by (cases m) auto
  from Suc.prems(1) show ?case unfolding m
    by (auto elim!: then_parse_SomeE dest!: carriesD[OF parseStatement_mono[OF le]]
        dest: Suc.IH[OF _ le] split: if_splits)
qed

lemma Parse_mono:
  assumes "Parse n toks = Some r" and "n \<le> m"
  shows "Parse m toks = Some r"
proof -
  from assms(1) obtain r' where r': "Parse_loop n toks [] 0 = Some r'"
    by (auto simp: Parse_def split: option.splits)
  from Parse_loop_mono[OF r' assms(2)] r' assms(1) show ?thesis
    by (simp add: Parse_def)
qed

subsection \<open>The parser's claim\<close>

text \<open>
  Claim C9: \<^verbatim>\<open>current\<close> and \<^verbatim>\<open>peek\<close> read the token list only inside it, and give the
  end-of-input token made on the spot when the position they look at (\<open>pos\<close>, and
  \<open>pos + 1\<close> for \<^verbatim>\<open>peek\<close>) is at or past the end; \<^verbatim>\<open>Parse\<close> returns on every token list,
  ended by an end-of-input token or not, with a program or an error: a bound of
  \<open>12 * length toks + 12\<close> on the depth of the calls is enough, and every larger bound
  gives the same result; on a list that holds only an end-of-input token the result is
  the empty program.
\<close>

theorem C9_parser_stays_in_range_and_returns:
  "(length toks \<le> pos \<longrightarrow> current toks pos = eofToken) \<and>
   (length toks \<le> pos + 1 \<longrightarrow> peek toks pos = eofToken) \<and>
   (\<exists>r. \<forall>n. 12 * length toks + 12 \<le> n \<longrightarrow> Parse n toks = Some r) \<and>
   (Type t = TokenEOF \<longrightarrow> (\<forall>n. Parse (Suc n) [t] = Some (Inr [])))"
proof -
  obtain r where r: "Parse (12 * length toks + 12) toks = Some r"
    using Parse_returns[of toks "12 * length toks + 12"] by auto
  have "\<forall>n. 12 * length toks + 12 \<le> n \<longrightarrow> Parse n toks = Some r"
    using Parse_mono[OF r] by simp
  then have "\<exists>r. \<forall>n. 12 * length toks + 12 \<le> n \<longrightarrow> Parse n toks = Some r" ..
  moreover have "Type t = TokenEOF \<longrightarrow> (\<forall>n. Parse (Suc n) [t] = Some (Inr []))"
    by (simp add: Parse_def current_def)
  ultimately show ?thesis
    by (simp add: current_def peek_def)
qed

text \<open>
  Claim C9 on the tokens of \<^verbatim>\<open>print 1\<close> with no end-of-input token after them, at the
  position after the last token, and on the list of one end-of-input token.
\<close>

theorem C9_parser_stays_in_range_and_returns_witness:
  "current [\<lparr>Type = TokenPrint, Value = ''print'', Line = 1, Column = 1, Literal = PString ''print''\<rparr>,
            \<lparr>Type = TokenNumber, Value = ''1'', Line = 1, Column = 7, Literal = PString ''1''\<rparr>] 2
     = eofToken \<and>
   peek [\<lparr>Type = TokenPrint, Value = ''print'', Line = 1, Column = 1, Literal = PString ''print''\<rparr>,
         \<lparr>Type = TokenNumber, Value = ''1'', Line = 1, Column = 7, Literal = PString ''1''\<rparr>] 2
     = eofToken \<and>
   (\<exists>r. Parse 36
      [\<lparr>Type = TokenPrint, Value = ''print'', Line = 1, Column = 1, Literal = PString ''print''\<rparr>,
       \<lparr>Type = TokenNumber, Value = ''1'', Line = 1, Column = 7, Literal = PString ''1''\<rparr>] = Some r \<and>
      Parse 50
      [\<lparr>Type = TokenPrint, Value = ''print'', Line = 1, Column = 1, Literal = PString ''print''\<rparr>,
       \<lparr>Type = TokenNumber, Value = ''1'', Line = 1, Column = 7, Literal = PString ''1''\<rparr>] = Some r) \<and>
   Parse 1 [eofToken] = Some (Inr [])"
  using C9_parser_stays_in_range_and_returns[where pos = 2 and t = eofToken and toks =
      "[\<lparr>Type = TokenPrint, Value = ''print'', Line = 1, Column = 1, Literal = PString ''print''\<rparr>,
        \<lparr>Type = TokenNumber, Value = ''1'', Line = 1, Column = 7, Literal = PString ''1''\<rparr>]"]
  by (auto simp: eofToken_def)

end
